theory Spec2Isabelle
  imports Complex_Main "HOL-Library.Char_ord" "HOL-Library.List_Lexorder"
begin

section \<open>Data cleaner: \<^verbatim>\<open>data/clean_data.py\<close>\<close>

text \<open>
  A DataFrame is a list of rows; a row carries every column the cleaner reads or assigns.
  Assigning a column that already exists overwrites it, so the derived columns of an input
  table are never read before they are written. Floating-point values are idealised as
  reals, with \<open>None\<close> (or \<open>Missing\<close>) for NaN; a comparison with NaN is false, arithmetic
  on NaN gives NaN.
\<close>

datatype error =
    ValueError string
  | FileNotFoundError string
  | NotFittedError string
  | AttributeError string
  | IndexError string

text \<open>
  \<^verbatim>\<open>str(e)\<close>: the message of an exception. The messages of exceptions raised inside the
  libraries are abbreviated.
\<close>

fun message :: "error \<Rightarrow> string" where
  "message (ValueError m) = m"
| "message (FileNotFoundError m) = m"
| "message (NotFittedError m) = m"
| "message (AttributeError m) = m"
| "message (IndexError m) = m"

text \<open>
  An \<open>amount\<close> cell: \<open>Missing\<close> is a null/NaN, \<open>Unparseable\<close> a non-null value that
  \<^verbatim>\<open>pd.to_numeric\<close> cannot convert, \<open>Number x\<close> a numeric value.
\<close>

datatype amount_cell = Missing | Unparseable | Number real

text \<open>
  A \<open>date\<close> cell: \<open>Date y m d\<close> is a value \<^verbatim>\<open>pd.to_datetime\<close> parses to that calendar day,
  \<open>BadDate\<close> one it coerces to NaT, \<open>NoDate\<close> a null.
\<close>

datatype date_cell = NoDate | BadDate | Date int nat nat

text \<open>A \<open>whistleblower\<close> cell: null, a boolean, or an integer (after \<^verbatim>\<open>astype(int)\<close>).\<close>

datatype flag_cell = NoFlag | Flag bool | Coded int

record row =
  defendant :: "string option"
  amount :: amount_cell
  date :: date_cell
  fraud_type :: "string option"
  industry :: "string option"
  jurisdiction :: "string option"
  whistleblower :: flag_cell
  settlement_date :: "(int \<times> nat \<times> nat) option"
  settlement_year :: int
  amount_2024 :: "real option"
  fraud_type_code :: "int option"
  industry_code :: "int option"
  jurisdiction_code :: int
  log_amount :: "real option"
  defendant_size :: int
  fraud_severity :: "real option"

subsection \<open>\<^verbatim>\<open>load_data\<close>\<close>

definition endswith :: "string \<Rightarrow> string \<Rightarrow> bool" where
  "endswith s suf = (length suf \<le> length s \<and> drop (length s - length suf) s = suf)"

text \<open>The file system is a partial map from paths to the table the pandas reader returns.\<close>

definition load_data :: "(string \<rightharpoonup> row list) \<Rightarrow> string \<Rightarrow> error + row list" where
  "load_data files filepath =
     (if endswith filepath ''.csv'' \<or> endswith filepath ''.json'' then
        (case files filepath of
           None \<Rightarrow> Inl (FileNotFoundError filepath)
         | Some data \<Rightarrow> Inr data)
      else Inl (ValueError ''File must be CSV or JSON''))"

subsection \<open>\<^verbatim>\<open>clean_amounts\<close>\<close>

fun to_numeric :: "amount_cell \<Rightarrow> amount_cell" where
  "to_numeric (Number x) = Number x"
| "to_numeric Unparseable = Missing"
| "to_numeric Missing = Missing"

fun outlier :: "amount_cell \<Rightarrow> bool" where
  "outlier (Number x) = (x > 1000000000 \<or> x < 10000)"
| "outlier Unparseable = False"
| "outlier Missing = False"

text \<open>
  The statistics the source stores in \<^verbatim>\<open>self.stats\<close> do not flow back into the table and
  are left out.
\<close>

definition clean_amounts :: "row list \<Rightarrow> row list" where
  "clean_amounts data =
     filter (\<lambda>r. \<not> outlier (amount r))
       (map (\<lambda>r. r\<lparr>amount := to_numeric (amount r)\<rparr>)
         (filter (\<lambda>r. amount r \<noteq> Missing) data))"

subsection \<open>\<^verbatim>\<open>clean_dates\<close> and \<^verbatim>\<open>_adjust_for_inflation\<close>\<close>

fun to_datetime :: "date_cell \<Rightarrow> (int \<times> nat \<times> nat) option" where
  "to_datetime (Date y m d) = Some (y, m, d)"
| "to_datetime BadDate = None"
| "to_datetime NoDate = None"

definition cpi_multipliers :: "int \<rightharpoonup> real" where
  "cpi_multipliers = map_of
     [(2024, 1.00), (2023, 1.04), (2022, 1.12), (2021, 1.17), (2020, 1.21),
      (2019, 1.24), (2018, 1.28), (2017, 1.31), (2016, 1.34), (2015, 1.34),
      (2014, 1.37), (2013, 1.40), (2012, 1.43), (2011, 1.47), (2010, 1.51)]"

definition dict_get :: "('k \<rightharpoonup> 'v) \<Rightarrow> 'k \<Rightarrow> 'v \<Rightarrow> 'v" where
  "dict_get d k dflt = (case d k of None \<Rightarrow> dflt | Some v \<Rightarrow> v)"

definition adjust_for_inflation :: "amount_cell \<Rightarrow> int \<Rightarrow> real option" where
  "adjust_for_inflation a year =
     (let multiplier = dict_get cpi_multipliers year 1.5
      in case a of Number x \<Rightarrow> Some (x * multiplier) | Unparseable \<Rightarrow> None | Missing \<Rightarrow> None)"

text \<open>Rows with NaT were removed before the year is extracted, so the \<open>None\<close> case is idle.\<close>

definition extract_year :: "row \<Rightarrow> row" where
  "extract_year r =
     (case settlement_date r of
        Some (y, m, d) \<Rightarrow> r\<lparr>settlement_year := y\<rparr>
      | None \<Rightarrow> r)"

definition clean_dates :: "row list \<Rightarrow> row list" where
  "clean_dates data =
     map (\<lambda>r. r\<lparr>amount_2024 := adjust_for_inflation (amount r) (settlement_year r)\<rparr>)
       (map extract_year
         (filter (\<lambda>r. settlement_date r \<noteq> None)
           (map (\<lambda>r. r\<lparr>settlement_date := to_datetime (date r)\<rparr>) data)))"

subsection \<open>\<^verbatim>\<open>encode_categories\<close>\<close>

definition fillna :: "'a \<Rightarrow> 'a option \<Rightarrow> 'a option" where
  "fillna v c = (case c of None \<Rightarrow> Some v | Some x \<Rightarrow> Some x)"

definition fraud_type_mapping :: "string \<rightharpoonup> int" where
  "fraud_type_mapping = map_of
     [(''healthcare'', 0), (''defense'', 1), (''covid'', 2), (''procurement'', 3),
      (''grant'', 4), (''housing'', 5), (''education'', 6), (''other'', 7)]"

definition industry_mapping :: "string \<rightharpoonup> int" where
  "industry_mapping = map_of
     [(''healthcare'', 0), (''defense_contractor'', 1), (''pharmaceutical'', 2),
      (''technology'', 3), (''construction'', 4), (''education'', 5),
      (''financial'', 6), (''other'', 7)]"

text \<open>\<^verbatim>\<open>Series.map(dict)\<close>: a value that is no key of the dictionary becomes NaN.\<close>

definition series_map :: "('k \<rightharpoonup> 'v) \<Rightarrow> 'k option \<Rightarrow> 'v option" where
  "series_map d c = (case c of None \<Rightarrow> None | Some k \<Rightarrow> d k)"

fun index_in :: "'a list \<Rightarrow> 'a \<Rightarrow> int" where
  "index_in [] x = - 1"
| "index_in (c # cs) x =
     (if c = x then 0 else (let i = index_in cs x in if i < 0 then - 1 else i + 1))"

text \<open>
  \<^verbatim>\<open>pd.Categorical(values).codes\<close>: the categories are the distinct non-null values in
  sorted order, the code of a value is its position among them, and a null has code -1.
\<close>

definition categories :: "string option list \<Rightarrow> string list" where
  "categories vals = sort (remdups (concat (map (\<lambda>c. case c of None \<Rightarrow> [] | Some s \<Rightarrow> [s]) vals)))"

definition categorical_code :: "string option list \<Rightarrow> string option \<Rightarrow> int" where
  "categorical_code vals c = (case c of None \<Rightarrow> - 1 | Some s \<Rightarrow> index_in (categories vals) s)"

fun astype_int :: "flag_cell \<Rightarrow> flag_cell" where
  "astype_int NoFlag = Coded 0"
| "astype_int (Flag b) = Coded (if b then 1 else 0)"
| "astype_int (Coded i) = Coded i"

text \<open>The codes are computed over the whole column as it stands when the statement runs.\<close>

definition assign_jurisdiction_codes :: "row list \<Rightarrow> row list" where
  "assign_jurisdiction_codes data =
     map (\<lambda>r. r\<lparr>jurisdiction_code := categorical_code (map jurisdiction data) (jurisdiction r)\<rparr>) data"

definition encode_categories :: "row list \<Rightarrow> row list" where
  "encode_categories data =
     map (\<lambda>r. r\<lparr>whistleblower := astype_int (whistleblower r)\<rparr>)
       (assign_jurisdiction_codes
         (map (\<lambda>r. r\<lparr>jurisdiction := fillna ''Unknown'' (jurisdiction r)\<rparr>)
           (map (\<lambda>r. r\<lparr>industry_code := series_map industry_mapping (industry r)\<rparr>)
             (map (\<lambda>r. r\<lparr>industry := fillna ''other'' (industry r)\<rparr>)
               (map (\<lambda>r. r\<lparr>fraud_type_code := series_map fraud_type_mapping (fraud_type r)\<rparr>)
                 (map (\<lambda>r. r\<lparr>fraud_type := fillna ''other'' (fraud_type r)\<rparr>) data))))))"

subsection \<open>\<^verbatim>\<open>create_features\<close>\<close>

text \<open>\<^verbatim>\<open>np.log1p\<close>: not a finite number at or below -1.\<close>

definition log1p :: "real \<Rightarrow> real option" where
  "log1p x = (if - 1 < x then Some (ln (1 + x)) else None)"

text \<open>
  \<^verbatim>\<open>pd.cut(x, bins=[0, 1_000_000, 10_000_000, inf], labels=[0, 1, 2])\<close>: the default
  \<^verbatim>\<open>right=True\<close> makes every bin closed on the right and open on the left; a value in no
  bin, and NaN, get no label.
\<close>

definition cut :: "real option \<Rightarrow> int option" where
  "cut v =
     (case v of
        None \<Rightarrow> None
      | Some x \<Rightarrow>
          if 0 < x \<and> x \<le> 1000000 then Some 0
          else if 1000000 < x \<and> x \<le> 10000000 then Some 1
          else if 10000000 < x then Some 2
          else None)"

definition severity_weights :: "string \<rightharpoonup> real" where
  "severity_weights = map_of
     [(''healthcare'', 1.2), (''defense'', 1.5), (''covid'', 1.3), (''procurement'', 1.0),
      (''grant'', 0.8), (''housing'', 1.1), (''education'', 0.9), (''other'', 1.0)]"

definition severity_weight :: "string option \<Rightarrow> real" where
  "severity_weight c = (case c of None \<Rightarrow> 1.0 | Some s \<Rightarrow> dict_get severity_weights s 1.0)"

definition row_severity :: "row \<Rightarrow> real option" where
  "row_severity r =
     (case amount_2024 r of
        None \<Rightarrow> None
      | Some a \<Rightarrow> map_option (\<lambda>l. l * severity_weight (fraud_type r)) (log1p a))"

text \<open>\<^verbatim>\<open>.astype(int)\<close> on the labels raises as soon as one label is missing.\<close>

fun assign_sizes :: "row list \<Rightarrow> error + row list" where
  "assign_sizes [] = Inr []"
| "assign_sizes (r # rs) =
     (case cut (amount_2024 r) of
        None \<Rightarrow> Inl (ValueError ''Cannot convert float NaN to integer'')
      | Some s \<Rightarrow>
          (case assign_sizes rs of
             Inl e \<Rightarrow> Inl e
           | Inr rs' \<Rightarrow> Inr (r\<lparr>defendant_size := s\<rparr> # rs')))"

definition create_features :: "row list \<Rightarrow> error + row list" where
  "create_features data =
     (case assign_sizes
             (map (\<lambda>r. r\<lparr>log_amount := (case amount_2024 r of None \<Rightarrow> None | Some a \<Rightarrow> log1p a)\<rparr>) data) of
        Inl e \<Rightarrow> Inl e
      | Inr data' \<Rightarrow> Inr (map (\<lambda>r. r\<lparr>fraud_severity := row_severity r\<rparr>) data'))"

subsection \<open>\<^verbatim>\<open>remove_duplicates\<close>\<close>

text \<open>\<^verbatim>\<open>drop_duplicates(subset=...)\<close> keeps the first row of every key.\<close>

fun drop_duplicates :: "('a \<Rightarrow> 'k) \<Rightarrow> 'k list \<Rightarrow> 'a list \<Rightarrow> 'a list" where
  "drop_duplicates key seen [] = []"
| "drop_duplicates key seen (r # rs) =
     (if key r \<in> set seen then drop_duplicates key seen rs
      else r # drop_duplicates key (key r # seen) rs)"

definition dup_key :: "row \<Rightarrow> string option \<times> amount_cell \<times> int" where
  "dup_key r = (defendant r, amount r, settlement_year r)"

definition remove_duplicates :: "row list \<Rightarrow> row list" where
  "remove_duplicates data = drop_duplicates dup_key [] data"

subsection \<open>\<^verbatim>\<open>validate_data\<close> and \<^verbatim>\<open>clean_all\<close>\<close>

text \<open>
  The issues \<^verbatim>\<open>validate_data\<close> can append, in the order of the source:
  "Insufficient data: only n records (need 20+ for testing)",
  "Missing required columns: [...]" and "Negative or zero amounts found".
\<close>

datatype issue = InsufficientData nat | MissingColumns "string list" | NonPositiveAmounts

definition nonpositive :: "real option \<Rightarrow> bool" where
  "nonpositive v = (case v of None \<Rightarrow> False | Some x \<Rightarrow> x \<le> 0)"

text \<open>Every required column is a field of \<open>row\<close>, so none is ever missing here.\<close>

definition validate_data :: "row list \<Rightarrow> bool \<times> issue list" where
  "validate_data data =
     (let issues1 = (if length data < 20 then [InsufficientData (length data)] else []);
          missing_cols = [];
          issues2 = (if missing_cols \<noteq> [] then issues1 @ [MissingColumns missing_cols] else issues1);
          issues3 = (if list_ex (\<lambda>r. nonpositive (amount_2024 r)) data
                     then issues2 @ [NonPositiveAmounts] else issues2)
      in (issues3 = [], issues3))"

text \<open>The steps of \<^verbatim>\<open>clean_all\<close> between loading and validation.\<close>

definition cleaning_steps :: "row list \<Rightarrow> error + row list" where
  "cleaning_steps data =
     (case create_features (encode_categories (clean_dates (clean_amounts data))) of
        Inl e \<Rightarrow> Inl e
      | Inr data' \<Rightarrow> Inr (remove_duplicates data'))"

definition clean_table :: "row list \<Rightarrow> error + row list" where
  "clean_table data =
     (case cleaning_steps data of
        Inl e \<Rightarrow> Inl e
      | Inr data' \<Rightarrow>
          if fst (validate_data data') then Inr data'
          else Inl (ValueError ''Data validation failed. Check logs for details.''))"

definition clean_all :: "(string \<rightharpoonup> row list) \<Rightarrow> string \<Rightarrow> error + row list" where
  "clean_all files filepath =
     (case load_data files filepath of
        Inl e \<Rightarrow> Inl e
      | Inr data \<Rightarrow> clean_table data)"


subsection \<open>Tables that are already cleaned\<close>

text \<open>
  The key of a raw row under which \<^verbatim>\<open>remove_duplicates\<close> will compare it once the amount is
  numeric and the year extracted.
\<close>

definition raw_key :: "row \<Rightarrow> string option \<times> amount_cell \<times> int option" where
  "raw_key r = (defendant r, to_numeric (amount r), map_option fst (to_datetime (date r)))"

text \<open>
  A table with no duplicate triple, no amount outside the accepted range, and no missing
  amount, date or categorical field.
\<close>

definition already_cleaned :: "row list \<Rightarrow> bool" where
  "already_cleaned data =
     (distinct (map dup_key data)
      \<and> list_all (\<lambda>r. (case amount r of
                          Number x \<Rightarrow> 10000 \<le> x \<and> x \<le> 1000000000
                        | Unparseable \<Rightarrow> False
                        | Missing \<Rightarrow> False)
                     \<and> to_datetime (date r) \<noteq> None
                     \<and> fraud_type r \<noteq> None \<and> industry r \<noteq> None
                     \<and> jurisdiction r \<noteq> None) data)"

text \<open>What the cleaning steps establish for every row they return.\<close>

definition consistent_row :: "row \<Rightarrow> bool" where
  "consistent_row r =
     ((case amount r of
         Number x \<Rightarrow> 10000 \<le> x \<and> x \<le> 1000000000
       | Unparseable \<Rightarrow> False
       | Missing \<Rightarrow> False)
      \<and> settlement_date r = to_datetime (date r)
      \<and> (case settlement_date r of Some (y, m, d) \<Rightarrow> settlement_year r = y | None \<Rightarrow> False)
      \<and> amount_2024 r = adjust_for_inflation (amount r) (settlement_year r)
      \<and> fraud_type r \<noteq> None
      \<and> fraud_type_code r = series_map fraud_type_mapping (fraud_type r)
      \<and> industry r \<noteq> None
      \<and> industry_code r = series_map industry_mapping (industry r)
      \<and> jurisdiction r \<noteq> None
      \<and> astype_int (whistleblower r) = whistleblower r
      \<and> log_amount r = (case amount_2024 r of None \<Rightarrow> None | Some a \<Rightarrow> log1p a)
      \<and> cut (amount_2024 r) = Some (defendant_size r)
      \<and> fraud_severity r = row_severity r)"

section \<open>Feature engine: \<^verbatim>\<open>training/feature_engineering.py\<close>\<close>

text \<open>\<^verbatim>\<open>str.lower\<close> on the ASCII letters; every other byte is left as it is.\<close>

definition lower_char :: "char \<Rightarrow> char" where
  "lower_char c =
     dict_get (map_of (zip ''ABCDEFGHIJKLMNOPQRSTUVWXYZ'' ''abcdefghijklmnopqrstuvwxyz'')) c c"

definition lower :: "string \<Rightarrow> string" where
  "lower s = map lower_char s"

text \<open>
  A Python float that a request can carry or a feature can take: a finite value (idealised
  as a real), an infinity or NaN. A comparison with NaN is false.
\<close>

datatype float = Finite real | PosInf | NegInf | NaN

fun float_lt :: "float \<Rightarrow> real \<Rightarrow> bool" where
  "float_lt (Finite x) c = (x < c)"
| "float_lt PosInf c = False"
| "float_lt NegInf c = True"
| "float_lt NaN c = False"

fun float_gt :: "float \<Rightarrow> real \<Rightarrow> bool" where
  "float_gt (Finite x) c = (c < x)"
| "float_gt PosInf c = True"
| "float_gt NegInf c = False"
| "float_gt NaN c = False"

fun isinf :: "float \<Rightarrow> bool" where
  "isinf (Finite x) = False"
| "isinf PosInf = True"
| "isinf NegInf = True"
| "isinf NaN = False"

fun isfinite :: "float \<Rightarrow> bool" where
  "isfinite (Finite x) = True"
| "isfinite PosInf = False"
| "isfinite NegInf = False"
| "isfinite NaN = False"

text \<open>
  \<^verbatim>\<open>np.log1p\<close> on a float: minus infinity at -1 and NaN below it, with a warning and no
  exception.
\<close>

fun np_log1p :: "float \<Rightarrow> float" where
  "np_log1p (Finite x) = (if - 1 < x then Finite (ln (1 + x)) else if x = - 1 then NegInf else NaN)"
| "np_log1p PosInf = PosInf"
| "np_log1p NegInf = NaN"
| "np_log1p NaN = NaN"

text \<open>The product of a float with a finite weight.\<close>

fun float_times :: "float \<Rightarrow> real \<Rightarrow> float" where
  "float_times (Finite x) w = Finite (x * w)"
| "float_times PosInf w = (if 0 < w then PosInf else if w < 0 then NegInf else NaN)"
| "float_times NegInf w = (if 0 < w then NegInf else if w < 0 then PosInf else NaN)"
| "float_times NaN w = NaN"

text \<open>
  The one-row frame \<^verbatim>\<open>create_prediction_input\<close> builds, and the frame with the five
  derived columns that \<^verbatim>\<open>SettlementFeatureEngine.create_features\<close> adds. The required
  base columns are fields of the record, so the "Missing required features" error of
  the source cannot arise here.
\<close>

record base_frame =
  fraud_type_code :: int
  industry_code :: int
  jurisdiction_code :: int
  whistleblower :: int
  defendant_size :: int
  settlement_year :: int
  log_amount :: float
  fraud_severity :: float

record feature_frame = base_frame +
  industry_fraud_interaction :: int
  years_since_2010 :: int
  whistleblower_fraud_interaction :: int
  jurisdiction_risk :: int
  size_fraud_interaction :: int

definition engine_create_features :: "'a base_frame_scheme \<Rightarrow> feature_frame" where
  "engine_create_features features =
     \<lparr>fraud_type_code = fraud_type_code features,
      industry_code = industry_code features,
      jurisdiction_code = jurisdiction_code features,
      whistleblower = whistleblower features,
      defendant_size = defendant_size features,
      settlement_year = settlement_year features,
      log_amount = log_amount features,
      fraud_severity = fraud_severity features,
      industry_fraud_interaction = industry_code features * fraud_type_code features,
      years_since_2010 = settlement_year features - 2010,
      whistleblower_fraud_interaction = whistleblower features * fraud_type_code features,
      jurisdiction_risk = jurisdiction_code features mod 3,
      size_fraud_interaction = defendant_size features * fraud_type_code features\<rparr>"

text \<open>\<^verbatim>\<open>data[self.feature_columns]\<close>: the twelve feature columns in their fixed order.\<close>

definition feature_columns :: "feature_frame \<Rightarrow> float list" where
  "feature_columns f =
     [Finite (of_int (fraud_type_code f)), Finite (of_int (industry_code f)),
      Finite (of_int (jurisdiction_code f)), Finite (of_int (whistleblower f)),
      Finite (of_int (defendant_size f)), Finite (of_int (settlement_year f)),
      fraud_severity f, Finite (of_int (industry_fraud_interaction f)),
      Finite (of_int (years_since_2010 f)), Finite (of_int (whistleblower_fraud_interaction f)),
      Finite (of_int (jurisdiction_risk f)), Finite (of_int (size_fraud_interaction f))]"

text \<open>
  A fitted \<^verbatim>\<open>StandardScaler\<close> holds one mean and one scale per feature; an unfitted one is
  \<open>None\<close>. \<^verbatim>\<open>transform\<close> raises on an unfitted scaler, on a row that holds an infinity and
  on a row of another width; it lets NaN through, which stays NaN (\<open>None\<close> in the scaled
  row).
\<close>

record StandardScaler =
  mean :: "real list"
  scale :: "real list"

fun scale_value :: "float \<times> real \<times> real \<Rightarrow> real option" where
  "scale_value (Finite v, m, d) = Some ((v - m) / d)"
| "scale_value (PosInf, m, d) = None"
| "scale_value (NegInf, m, d) = None"
| "scale_value (NaN, m, d) = None"

definition scaler_transform :: "StandardScaler option \<Rightarrow> float list \<Rightarrow> error + real option list" where
  "scaler_transform sc x =
     (case sc of
        None \<Rightarrow> Inl (NotFittedError ''This StandardScaler instance is not fitted yet.'')
      | Some s \<Rightarrow>
          if list_ex isinf x
          then Inl (ValueError ''Input X contains infinity or a value too large.'')
          else if length (mean s) \<noteq> length x \<or> length (scale s) \<noteq> length x
          then Inl (ValueError ''X has a different number of features than StandardScaler is expecting.'')
          else Inr (map scale_value (zip x (zip (mean s) (scale s)))))"

record SettlementFeatureEngine =
  scaler :: "StandardScaler option"

text \<open>
  \<^verbatim>\<open>transform_new_data\<close>: the derived columns are recomputed, the feature columns selected
  and scaled. The frame has a single row, so the median of a column is its one value and
  the median fill changes nothing (a NaN stays NaN).
\<close>

definition transform_new_data :: "SettlementFeatureEngine \<Rightarrow> 'a base_frame_scheme \<Rightarrow> error + real option list" where
  "transform_new_data engine data =
     scaler_transform (scaler engine) (feature_columns (engine_create_features data))"

text \<open>The defendant size that \<^verbatim>\<open>create_prediction_input\<close> estimates from the damages.\<close>

definition estimate_defendant_size :: "float \<Rightarrow> int" where
  "estimate_defendant_size damages_claimed =
     (if float_lt damages_claimed 1000000 then 0
      else if float_lt damages_claimed 10000000 then 1
      else 2)"

text \<open>
  The base columns of the one-row frame of \<^verbatim>\<open>create_prediction_input\<close>, given the value
  \<open>l\<close> of \<^verbatim>\<open>np.log1p(damages_claimed)\<close>. Python's \<^verbatim>\<open>hash\<close> of a string is salted per
  process, so it is a parameter.
\<close>

definition prediction_frame ::
  "(string \<Rightarrow> int) \<Rightarrow> string \<Rightarrow> float \<Rightarrow> string \<Rightarrow> string \<Rightarrow> bool \<Rightarrow> int \<Rightarrow> float \<Rightarrow> base_frame" where
  "prediction_frame hash fraud_type' damages_claimed industry' jurisdiction'
       whistleblower_present settlement_year' l =
     \<lparr>fraud_type_code = dict_get fraud_type_mapping (lower fraud_type') 7,
      industry_code = dict_get industry_mapping (lower industry') 7,
      jurisdiction_code = hash jurisdiction' mod 50,
      whistleblower = (if whistleblower_present then 1 else 0),
      defendant_size = estimate_defendant_size damages_claimed,
      settlement_year = settlement_year',
      log_amount = l,
      fraud_severity = float_times l (dict_get severity_weights (lower fraud_type') 1.0)\<rparr>"

text \<open>\<^verbatim>\<open>create_prediction_input\<close>.\<close>

definition create_prediction_input ::
  "(string \<Rightarrow> int) \<Rightarrow> SettlementFeatureEngine \<Rightarrow> string \<Rightarrow> float \<Rightarrow> string \<Rightarrow> string \<Rightarrow> bool \<Rightarrow> int
     \<Rightarrow> error + real option list" where
  "create_prediction_input hash engine fraud_type' damages_claimed industry' jurisdiction'
       whistleblower_present settlement_year' =
     transform_new_data engine
       (engine_create_features
         (prediction_frame hash fraud_type' damages_claimed industry' jurisdiction'
            whistleblower_present settlement_year' (np_log1p damages_claimed)))"

section \<open>Predictor: \<^verbatim>\<open>training/train_model.py\<close>\<close>

text \<open>
  A fitted regression tree is a function from a scaled feature row, in which a value may be
  NaN, to a prediction. The forest's \<^verbatim>\<open>estimators_\<close> attribute exists only after fitting or
  loading: \<open>None\<close> before.
\<close>

type_synonym tree = "real option list \<Rightarrow> real"

record SettlementPredictor =
  model :: "tree list option"
  feature_engine :: SettlementFeatureEngine

text \<open>\<^verbatim>\<open>SettlementPredictor()\<close>: a forest and a scaler that are not fitted yet.\<close>

definition new_predictor :: SettlementPredictor where
  "new_predictor = \<lparr>model = None, feature_engine = \<lparr>scaler = None\<rparr>\<rparr>"

text \<open>\<^verbatim>\<open>np.percentile\<close> with its default linear interpolation, on a non-empty list.\<close>

definition percentile :: "real list \<Rightarrow> real \<Rightarrow> real" where
  "percentile a q =
     (let s = sort a;
          n = length s;
          pos = q / 100 * real (n - 1);
          lo = nat \<lfloor>pos\<rfloor>;
          hi = min (lo + 1) (n - 1);
          frac = pos - real lo
      in s ! lo + frac * (s ! hi - s ! lo))"

text \<open>The value that linear interpolation gives at a fractional position of a sorted list.\<close>

definition interp :: "real list \<Rightarrow> real \<Rightarrow> real" where
  "interp s pos = s ! nat \<lfloor>pos\<rfloor>
      + (pos - real (nat \<lfloor>pos\<rfloor>)) * (s ! min (nat \<lfloor>pos\<rfloor> + 1) (length s - 1) - s ! nat \<lfloor>pos\<rfloor>)"

definition expm1 :: "real \<Rightarrow> real" where
  "expm1 x = exp x - 1"

text \<open>\<^verbatim>\<open>np.std\<close>: the population standard deviation.\<close>

definition np_mean :: "real list \<Rightarrow> real" where
  "np_mean a = sum_list a / real (length a)"

definition np_std :: "real list \<Rightarrow> real" where
  "np_std a = sqrt (np_mean (map (\<lambda>v. (v - np_mean a)\<^sup>2) a))"

record prediction =
  predicted_low :: real
  predicted_mid :: real
  predicted_high :: real
  confidence :: real
  input_damages :: float

definition predict_settlement_range ::
  "(string \<Rightarrow> int) \<Rightarrow> SettlementPredictor \<Rightarrow> string \<Rightarrow> float \<Rightarrow> string \<Rightarrow> string \<Rightarrow> bool \<Rightarrow> int
     \<Rightarrow> error + prediction" where
  "predict_settlement_range hash self fraud_type' damages_claimed industry' jurisdiction'
       whistleblower_present settlement_year' =
     (case create_prediction_input hash (feature_engine self) fraud_type' damages_claimed
             industry' jurisdiction' whistleblower_present settlement_year' of
        Inl e \<Rightarrow> Inl e
      | Inr X \<Rightarrow>
          (case model self of
             None \<Rightarrow> Inl (AttributeError ''RandomForestRegressor object has no attribute estimators_'')
           | Some estimators \<Rightarrow>
               if estimators = [] then Inl (IndexError ''percentile of an empty array'')
               else
                 (let tree_predictions = map (\<lambda>tree. tree X) estimators;
                      pred_25 = percentile tree_predictions 25;
                      pred_50 = percentile tree_predictions 50;
                      pred_75 = percentile tree_predictions 75;
                      pred_std = np_std tree_predictions
                  in Inr \<lparr>predicted_low = expm1 pred_25,
                          predicted_mid = expm1 pred_50,
                          predicted_high = expm1 pred_75,
                          confidence = 1.0 - min (pred_std / 2.0) 0.5,
                          input_damages = damages_claimed\<rparr>)))"

text \<open>
  A fitted predictor: a forest of at least one tree and a scaler fitted on the twelve
  feature columns.
\<close>

definition fitted :: "SettlementPredictor \<Rightarrow> bool" where
  "fitted p =
     ((case model p of None \<Rightarrow> False | Some trees \<Rightarrow> trees \<noteq> [])
      \<and> (case scaler (feature_engine p) of
            None \<Rightarrow> False
          | Some sc \<Rightarrow> length (mean sc) = 12 \<and> length (scale sc) = 12))"

text \<open>\<^verbatim>\<open>load_model\<close> of the predictor replaces the forest and the scaler.\<close>

definition predictor_load_model :: "SettlementPredictor \<Rightarrow> tree list \<Rightarrow> StandardScaler \<Rightarrow> SettlementPredictor" where
  "predictor_load_model self trees sc = self\<lparr>model := Some trees, feature_engine := \<lparr>scaler = Some sc\<rparr>\<rparr>"

section \<open>Serving endpoint: \<^verbatim>\<open>serving/predict_api.py\<close>\<close>

record PredictionRequest =
  fraud_type :: string
  damages_claimed :: float
  industry :: string
  jurisdiction :: string
  whistleblower_present :: bool
  settlement_year :: int

text \<open>
  The constraints the request schema declares (\<^verbatim>\<open>gt=0\<close>, \<^verbatim>\<open>ge=2010\<close>, \<^verbatim>\<open>le=2030\<close>). The
  framework checks the whole body against the schema before it calls a handler and
  answers 422 when any part fails. A JSON number too large for a double, such as
  \<^verbatim>\<open>1e309\<close>, is parsed as the float infinity, which is greater than 0 and passes.
\<close>

definition request_valid :: "PredictionRequest \<Rightarrow> bool" where
  "request_valid r =
     (float_gt (damages_claimed r) 0 \<and> 2010 \<le> settlement_year r \<and> settlement_year r \<le> 2030)"

text \<open>
  The answers other than a result: an \<^verbatim>\<open>HTTPException\<close> raised by a handler, the
  framework's rejection of a body (422), and the framework's answer to any other exception
  that leaves a handler or the encoding of its return value (500).
\<close>

datatype http_error = HTTPException nat string | RequestValidationError | InternalServerError

fun status_code :: "http_error \<Rightarrow> nat" where
  "status_code (HTTPException code detail) = code"
| "status_code RequestValidationError = 422"
| "status_code InternalServerError = 500"

text \<open>
  The framework encodes a handler's return value with \<^verbatim>\<open>json.dumps(allow_nan=False)\<close>,
  which raises on an infinity or a NaN. The predicted amounts are kept as exact reals;
  where one lies beyond the largest double, \<open>float_max\<close>, the code holds the float infinity
  (rounding at that boundary is left out).
\<close>

definition float_max :: real where
  "float_max = (2 - 1 / 2 ^ 52) * 2 ^ 1023"

definition overflows :: "real \<Rightarrow> bool" where
  "overflows v = (float_max < v)"

definition prediction_json_compliant :: "prediction \<Rightarrow> bool" where
  "prediction_json_compliant response =
     (\<not> overflows (predicted_low response) \<and> \<not> overflows (predicted_mid response)
      \<and> \<not> overflows (predicted_high response) \<and> isfinite (input_damages response))"

text \<open>
  The two artifact files the startup hook looks for. \<open>Unreadable\<close> is a file that exists
  but makes \<^verbatim>\<open>joblib.load\<close> raise.
\<close>

datatype 'a artifact = Absent | Unreadable | Stored 'a

fun path_exists :: "'a artifact \<Rightarrow> bool" where
  "path_exists Absent = False"
| "path_exists Unreadable = True"
| "path_exists (Stored x) = True"

text \<open>
  The startup hook \<^verbatim>\<open>load_model\<close>: the result is the global \<^verbatim>\<open>predictor\<close>; any exception
  sets it to \<open>None\<close>.
\<close>

definition load_model :: "tree list artifact \<Rightarrow> StandardScaler artifact \<Rightarrow> SettlementPredictor option" where
  "load_model model_path scaler_path =
     (let predictor = new_predictor in
      if path_exists model_path \<and> path_exists scaler_path then
        (case model_path of
           Stored trees \<Rightarrow>
             (case scaler_path of
                Stored sc \<Rightarrow> Some (predictor_load_model predictor trees sc)
              | Unreadable \<Rightarrow> None
              | Absent \<Rightarrow> None)
         | Unreadable \<Rightarrow> None
         | Absent \<Rightarrow> None)
      else Some predictor)"

text \<open>
  The guard \<^verbatim>\<open>not predictor or not hasattr(predictor, 'model')\<close>: a predictor object is
  truthy and always has the attribute \<^verbatim>\<open>model\<close>, which its constructor assigns, so the
  guard holds exactly when the global is \<open>None\<close>; the handlers of the two prediction
  routes test for that.
\<close>

text \<open>
  The truth test of \<^verbatim>\<open>predictor.model\<close>. A forest defines \<^verbatim>\<open>__len__\<close> as
  \<^verbatim>\<open>len(self.estimators_)\<close>, so the test raises on a forest that is not fitted and is false
  on a forest without trees.
\<close>

definition model_truth :: "tree list option \<Rightarrow> error + bool" where
  "model_truth m =
     (case m of
        None \<Rightarrow> Inl (AttributeError ''RandomForestRegressor object has no attribute estimators_'')
      | Some estimators \<Rightarrow> Inr (estimators \<noteq> []))"

text \<open>
  The handler of \<^verbatim>\<open>GET /\<close>. The \<^verbatim>\<open>status\<close> entry (\<open>health_status\<close> here) is computed first,
  with the truth test of the forest, so an exception in it leaves no response; without a
  predictor the conjunction stops at the global and the forest is not tested. The time
  stamp is left out.
\<close>

record HealthResponse =
  health_status :: string
  model_loaded :: bool

definition health_check :: "SettlementPredictor option \<Rightarrow> error + HealthResponse" where
  "health_check predictor =
     (case predictor of
        None \<Rightarrow> Inr \<lparr>health_status = ''model_not_loaded'', model_loaded = False\<rparr>
      | Some p \<Rightarrow>
          (case model_truth (model p) of
             Inl e \<Rightarrow> Inl e
           | Inr truthy \<Rightarrow>
               Inr \<lparr>health_status = (if truthy then ''healthy'' else ''model_not_loaded''),
                    model_loaded = True\<rparr>))"

definition get_health :: "SettlementPredictor option \<Rightarrow> http_error + HealthResponse" where
  "get_health predictor =
     (case health_check predictor of
        Inl e \<Rightarrow> Inl InternalServerError
      | Inr response \<Rightarrow> Inr response)"

definition valid_fraud_types :: "string list" where
  "valid_fraud_types =
     [''healthcare'', ''defense'', ''covid'', ''procurement'', ''grant'', ''housing'',
      ''education'', ''other'']"

definition valid_industries :: "string list" where
  "valid_industries =
     [''healthcare'', ''defense_contractor'', ''pharmaceutical'', ''technology'',
      ''construction'', ''education'', ''financial'', ''other'']"

fun join :: "string \<Rightarrow> string list \<Rightarrow> string" where
  "join sep [] = []"
| "join sep [x] = x"
| "join sep (x # y # ys) = x @ sep @ join sep (y # ys)"

text \<open>The handler of \<^verbatim>\<open>POST /predict\<close>, called with a request that passed the schema.\<close>

definition predict_settlement ::
  "(string \<Rightarrow> int) \<Rightarrow> SettlementPredictor option \<Rightarrow> PredictionRequest \<Rightarrow> http_error + prediction" where
  "predict_settlement hash predictor request =
     (case predictor of
        None \<Rightarrow> Inl (HTTPException 503 ''Model not loaded. Please train the model first.'')
      | Some p \<Rightarrow>
          if lower (fraud_type request) \<notin> set valid_fraud_types then
            Inl (HTTPException 400
                  (''Invalid fraud_type. Must be one of: '' @ join '', '' valid_fraud_types))
          else if lower (industry request) \<notin> set valid_industries then
            Inl (HTTPException 400
                  (''Invalid industry. Must be one of: '' @ join '', '' valid_industries))
          else
            (case predict_settlement_range hash p (fraud_type request) (damages_claimed request)
                    (industry request) (jurisdiction request) (whistleblower_present request)
                    (settlement_year request) of
               Inr prediction \<Rightarrow> Inr prediction
             | Inl e \<Rightarrow> Inl (HTTPException 500 (''Prediction failed: '' @ message e))))"

text \<open>
  \<^verbatim>\<open>POST /predict\<close>: the schema check, the handler, and the encoding of what it returns.
\<close>

definition post_predict ::
  "(string \<Rightarrow> int) \<Rightarrow> SettlementPredictor option \<Rightarrow> PredictionRequest \<Rightarrow> http_error + prediction" where
  "post_predict hash predictor body =
     (if request_valid body then
        (case predict_settlement hash predictor body of
           Inl e \<Rightarrow> Inl e
         | Inr response \<Rightarrow>
             if prediction_json_compliant response then Inr response
             else Inl InternalServerError)
      else Inl RequestValidationError)"


text \<open>One entry of the batch response: the input with a prediction, or with an error text.\<close>

datatype batch_item =
    Success PredictionRequest prediction
  | Failed PredictionRequest string

fun status :: "batch_item \<Rightarrow> string" where
  "status (Success req p) = ''success''"
| "status (Failed req e) = ''failed''"

record batch_response =
  total :: nat
  successful :: nat
  failed :: nat
  results :: "batch_item list"

definition batch_item_of :: "(string \<Rightarrow> int) \<Rightarrow> SettlementPredictor \<Rightarrow> PredictionRequest \<Rightarrow> batch_item" where
  "batch_item_of hash p req =
     (case predict_settlement_range hash p (fraud_type req) (damages_claimed req)
             (industry req) (jurisdiction req) (whistleblower_present req)
             (settlement_year req) of
        Inr prediction \<Rightarrow> Success req prediction
      | Inl e \<Rightarrow> Failed req (message e))"

text \<open>The handler of \<^verbatim>\<open>POST /batch-predict\<close>, called with a body that passed the schema.\<close>

definition batch_predict ::
  "(string \<Rightarrow> int) \<Rightarrow> SettlementPredictor option \<Rightarrow> PredictionRequest list \<Rightarrow> http_error + batch_response" where
  "batch_predict hash predictor requests =
     (case predictor of
        None \<Rightarrow> Inl (HTTPException 503 ''Model not loaded'')
      | Some p \<Rightarrow>
          if length requests > 100 then
            Inl (HTTPException 400 ''Batch size limited to 100 predictions'')
          else
            (let results = map (batch_item_of hash p) requests
             in Inr \<lparr>total = length requests,
                     successful = length (filter (\<lambda>r. status r = ''success'') results),
                     failed = length (filter (\<lambda>r. status r = ''failed'') results),
                     results = results\<rparr>))"

text \<open>
  Whether an entry of the batch response can be encoded: its echoed input holds the only
  float of the request, and a successful entry holds the prediction too.
\<close>

fun item_json_compliant :: "batch_item \<Rightarrow> bool" where
  "item_json_compliant (Success req p) = (isfinite (damages_claimed req) \<and> prediction_json_compliant p)"
| "item_json_compliant (Failed req e) = isfinite (damages_claimed req)"

text \<open>
  \<^verbatim>\<open>POST /batch-predict\<close>: the schema check of the whole body, the handler, and the
  encoding of what it returns.
\<close>

definition post_batch_predict ::
  "(string \<Rightarrow> int) \<Rightarrow> SettlementPredictor option \<Rightarrow> PredictionRequest list \<Rightarrow> http_error + batch_response" where
  "post_batch_predict hash predictor body =
     (if list_all request_valid body then
        (case batch_predict hash predictor body of
           Inl e \<Rightarrow> Inl e
         | Inr response \<Rightarrow>
             if list_all item_json_compliant (results response) then Inr response
             else Inl InternalServerError)
      else Inl RequestValidationError)"


section \<open>Example inputs\<close>

text \<open>A raw table of twenty distinct settlements, one of them dated outside the CPI table.\<close>

definition raw_row :: "string \<Rightarrow> real \<Rightarrow> int \<Rightarrow> string option \<Rightarrow> row" where
  "raw_row d a y j = \<lparr>defendant = Some d, amount = Number a, date = Date y 6 15,
     fraud_type = Some ''healthcare'', industry = None,
     jurisdiction = j, whistleblower = Flag True,
     settlement_date = None, settlement_year = 0, amount_2024 = None,
     fraud_type_code = None, industry_code = None, jurisdiction_code = 0,
     log_amount = None, defendant_size = 0, fraud_severity = None\<rparr>"

definition sample_table :: "row list" where
  "sample_table =
     [raw_row ''Acme'' 20000 2005 (Some ''SDNY''), raw_row ''Acme'' 30000 2010 (Some ''EDVA''),
      raw_row ''Acme'' 40000 2011 (Some ''SDNY''), raw_row ''Acme'' 50000 2012 None,
      raw_row ''Acme'' 60000 2013 (Some ''SDNY''), raw_row ''Acme'' 70000 2014 (Some ''EDVA''),
      raw_row ''Acme'' 80000 2015 (Some ''SDNY''), raw_row ''Acme'' 90000 2016 (Some ''EDVA''),
      raw_row ''Acme'' 100000 2017 (Some ''SDNY''), raw_row ''Acme'' 200000 2018 (Some ''EDVA''),
      raw_row ''Acme'' 300000 2019 (Some ''SDNY''), raw_row ''Acme'' 400000 2020 (Some ''EDVA''),
      raw_row ''Acme'' 500000 2021 (Some ''SDNY''), raw_row ''Acme'' 600000 2022 (Some ''EDVA''),
      raw_row ''Acme'' 700000 2023 (Some ''SDNY''), raw_row ''Acme'' 1000000 2024 (Some ''EDVA''),
      raw_row ''Acme'' 2000000 2024 (Some ''SDNY''), raw_row ''Acme'' 10000000 2024 (Some ''EDVA''),
      raw_row ''Acme'' 20000000 2024 (Some ''SDNY''), raw_row ''Acme'' 30000000 2025 (Some ''EDVA'')]"

definition sample_files :: "string \<rightharpoonup> row list" where
  "sample_files = [''fca_settlements_sample.csv'' \<mapsto> sample_table]"

text \<open>
  Twenty-one settlements: the second repeats the triple of the first under another
  jurisdiction, which no other row has.
\<close>

definition duplicated_table :: "row list" where
  "duplicated_table =
     raw_row ''Acme'' 20000 2005 (Some ''SDNY'') # raw_row ''Acme'' 20000 2005 (Some ''EDVA'')
       # map (\<lambda>r. r\<lparr>row.jurisdiction := Some ''SDNY''\<rparr>) (tl sample_table)"

text \<open>Four settlements of 2024 (multiplier 1.00) at the thresholds of \<open>defendant_size\<close>.\<close>

definition boundary_rows :: "row list" where
  "boundary_rows =
     [raw_row ''Acme'' 999999.99 2024 (Some ''SDNY''), raw_row ''Acme'' 1000000 2024 (Some ''SDNY''),
      raw_row ''Acme'' 10000000 2024 (Some ''SDNY''), raw_row ''Acme'' 10000000.01 2024 (Some ''SDNY'')]"

text \<open>A table too short to pass validation.\<close>

definition short_table :: "row list" where
  "short_table = [raw_row ''Acme'' 20000 2005 (Some ''SDNY''), raw_row ''Acme'' 30000 2010 None]"

text \<open>The example request of the schema, and a fitted predictor of three constant trees.\<close>

definition example_request :: PredictionRequest where
  "example_request =
     \<lparr>fraud_type = ''healthcare'', damages_claimed = Finite 10000000, industry = ''pharmaceutical'',
      jurisdiction = ''Southern District of New York'', whistleblower_present = True,
      settlement_year = 2024\<rparr>"

definition example_predictor :: SettlementPredictor where
  "example_predictor =
     \<lparr>model = Some [\<lambda>x. 13, \<lambda>x. 15, \<lambda>x. 14],
      feature_engine = \<lparr>scaler = Some \<lparr>mean = replicate 12 0, scale = replicate 12 1\<rparr>\<rparr>\<rparr>"

text \<open>A request with a fraud type outside the vocabulary.\<close>

definition unknown_type_request :: PredictionRequest where
  "unknown_type_request = example_request\<lparr>fraud_type := ''bogus''\<rparr>"




text \<open>A stand-in for the salted string hash.\<close>

definition example_hash :: "string \<Rightarrow> int" where
  "example_hash s = int (length s)"


section \<open>Properties of the cleaner\<close>

lemmas cleaner_defs = clean_all_def load_data_def endswith_def clean_table_def cleaning_steps_def
  clean_amounts_def clean_dates_def encode_categories_def create_features_def
  remove_duplicates_def extract_year_def adjust_for_inflation_def dict_get_def
  cpi_multipliers_def cut_def dup_key_def validate_data_def nonpositive_def fillna_def
  series_map_def categorical_code_def categories_def assign_jurisdiction_codes_def Let_def

lemma cpi_dom: "cpi_multipliers y = None \<longleftrightarrow> \<not> (2010 \<le> y \<and> y \<le> 2024)"
  unfolding cpi_multipliers_def by (simp, presburger)

lemma cpi_ge_one: "cpi_multipliers y = Some m \<Longrightarrow> 1 \<le> m"
  unfolding cpi_multipliers_def by (simp split: if_splits)

lemma clean_amounts_range:
  assumes "r \<in> set (clean_amounts data)"
  shows "amount r = Missing \<or> (\<exists>x. amount r = Number x \<and> 10000 \<le> x \<and> x \<le> 1000000000)"
proof -
  from assms have "\<not> outlier (amount r)" and "amount r \<noteq> Unparseable"
    unfolding clean_amounts_def
    by (auto elim: to_numeric.elims)
  then show ?thesis by (cases "amount r") auto
qed

lemma clean_dates_rows:
  assumes "r \<in> set (clean_dates data)"
  shows "amount_2024 r = adjust_for_inflation (amount r) (row.settlement_year r)
         \<and> (\<exists>r0 \<in> set data. amount r = amount r0)"
  using assms unfolding clean_dates_def extract_year_def
  by (auto split: option.splits)

lemma encode_categories_rows:
  assumes "r \<in> set (encode_categories data)"
  shows "\<exists>r0 \<in> set data. amount r = amount r0 \<and> amount_2024 r = amount_2024 r0
           \<and> row.settlement_year r = row.settlement_year r0"
  using assms unfolding encode_categories_def assign_jurisdiction_codes_def by auto

lemma assign_sizes_rows:
  "assign_sizes rs = Inr rs' \<Longrightarrow> r \<in> set rs' \<Longrightarrow>
     \<exists>r0 \<in> set rs. \<exists>s. cut (amount_2024 r0) = Some s \<and> r = r0\<lparr>row.defendant_size := s\<rparr>"
proof (induction rs arbitrary: rs')
  case Nil
  then show ?case by simp
next
  case (Cons a rs)
  then show ?case
    by (auto split: option.splits sum.splits)
qed

lemma create_features_rows:
  assumes "create_features data = Inr data'" and "r \<in> set data'"
  shows "\<exists>r0 \<in> set data. amount r = amount r0 \<and> amount_2024 r = amount_2024 r0
           \<and> row.settlement_year r = row.settlement_year r0 \<and> cut (amount_2024 r0) \<noteq> None"
proof -
  let ?d1 = "map (\<lambda>r. r\<lparr>row.log_amount := (case amount_2024 r of None \<Rightarrow> None | Some a \<Rightarrow> log1p a)\<rparr>) data"
  from assms(1) obtain d2 where d2: "assign_sizes ?d1 = Inr d2"
    and d': "data' = map (\<lambda>r. r\<lparr>row.fraud_severity := row_severity r\<rparr>) d2"
    unfolding create_features_def by (auto split: sum.splits)
  from assms(2) d' obtain r2 where r2: "r2 \<in> set d2" "r = r2\<lparr>row.fraud_severity := row_severity r2\<rparr>"
    by auto
  from assign_sizes_rows[OF d2 r2(1)] obtain r1 s where
    r1: "r1 \<in> set ?d1" "cut (amount_2024 r1) = Some s" "r2 = r1\<lparr>row.defendant_size := s\<rparr>"
    by blast
  from r1(1) obtain r0 where r0: "r0 \<in> set data"
    "r1 = r0\<lparr>row.log_amount := (case amount_2024 r0 of None \<Rightarrow> None | Some a \<Rightarrow> log1p a)\<rparr>"
    by auto
  show ?thesis using r0 r1 r2 by (intro bexI[of _ r0]) auto
qed

lemma drop_duplicates_subset: "set (drop_duplicates key seen rs) \<subseteq> set rs"
  by (induction rs arbitrary: seen) auto

lemma cleaning_steps_rows:
  assumes "cleaning_steps data = Inr cleaned" and "r \<in> set cleaned"
  shows "\<exists>x. amount r = Number x \<and> 10000 \<le> x \<and> x \<le> 1000000000
            \<and> amount_2024 r = Some (x * dict_get cpi_multipliers (row.settlement_year r) 1.5)"
proof -
  from assms(1) obtain d where d: "create_features (encode_categories (clean_dates (clean_amounts data))) = Inr d"
    and c: "cleaned = remove_duplicates d"
    unfolding cleaning_steps_def by (auto split: sum.splits)
  from assms(2) c have "r \<in> set d"
    unfolding remove_duplicates_def using drop_duplicates_subset by fastforce
  from create_features_rows[OF d this] obtain r3 where
    r3: "r3 \<in> set (encode_categories (clean_dates (clean_amounts data)))"
      "amount r = amount r3" "amount_2024 r = amount_2024 r3"
      "row.settlement_year r = row.settlement_year r3" "cut (amount_2024 r3) \<noteq> None"
    by blast
  from encode_categories_rows[OF r3(1)] obtain r2 where
    r2: "r2 \<in> set (clean_dates (clean_amounts data))"
      "amount r3 = amount r2" "amount_2024 r3 = amount_2024 r2"
      "row.settlement_year r3 = row.settlement_year r2"
    by blast
  from clean_dates_rows[OF r2(1)] obtain r1 where
    r1: "amount_2024 r2 = adjust_for_inflation (amount r2) (row.settlement_year r2)"
      "r1 \<in> set (clean_amounts data)" "amount r2 = amount r1"
    by blast
  have adj: "amount_2024 r = adjust_for_inflation (amount r) (row.settlement_year r)"
    using r3 r2 r1 by simp
  have "cut (amount_2024 r) \<noteq> None" using r3 by simp
  then have "amount_2024 r \<noteq> None" by (auto simp: cut_def split: option.splits)
  with adj have "amount r \<noteq> Missing" by (auto simp: adjust_for_inflation_def Let_def)
  moreover have "amount r = amount r1" using r3 r2 r1 by simp
  ultimately obtain x where x: "amount r = Number x" "10000 \<le> x" "x \<le> 1000000000"
    using clean_amounts_range[OF r1(2)] by auto
  with adj show ?thesis by (auto simp: adjust_for_inflation_def Let_def)
qed


lemma clean_all_rows:
  assumes "clean_all files filepath = Inr cleaned"
  shows "cleaning_steps (the (files filepath)) = Inr cleaned" and "20 \<le> length cleaned"
  using assms unfolding clean_all_def load_data_def clean_table_def validate_data_def
  by (auto split: sum.splits if_splits option.splits simp: Let_def)

lemma sample_table_cleans:
  "clean_all sample_files ''fca_settlements_sample.csv''
     = Inr (projr (clean_all sample_files ''fca_settlements_sample.csv''))"
proof -
  have "\<not> isl (clean_all sample_files ''fca_settlements_sample.csv'')"
    by (simp add: sample_files_def sample_table_def raw_row_def cleaner_defs)
  then show ?thesis by simp
qed

text \<open>
  Claim C6. Every row of the table that \<^verbatim>\<open>clean_all\<close> returns has a numeric amount, and
  its \<open>amount_2024\<close>, assigned by \<^verbatim>\<open>clean_dates\<close>, is that amount times the multiplier of
  the CPI table for its settlement year when the year is one of 2010 to 2024, and times
  1.5 otherwise; the product is positive.
\<close>

theorem clean_dates_amount_2024:
  assumes "clean_all files filepath = Inr cleaned" and "r \<in> set cleaned"
  shows "\<exists>x m. amount r = Number x \<and> amount_2024 r = Some (x * m) \<and> 0 < x * m \<and>
           (if 2010 \<le> row.settlement_year r \<and> row.settlement_year r \<le> 2024
            then cpi_multipliers (row.settlement_year r) = Some m else m = 1.5)"
proof -
  from cleaning_steps_rows[OF clean_all_rows(1)[OF assms(1)] assms(2)]
  obtain x where x: "amount r = Number x" "10000 \<le> x"
    "amount_2024 r = Some (x * dict_get cpi_multipliers (row.settlement_year r) 1.5)"
    by blast
  let ?y = "row.settlement_year r"
  show ?thesis
  proof (cases "cpi_multipliers ?y")
    case None
    then have "\<not> (2010 \<le> ?y \<and> ?y \<le> 2024)" by (simp add: cpi_dom)
    moreover have "amount_2024 r = Some (x * 1.5)" using x None by (simp add: dict_get_def)
    moreover have "0 < x * 1.5" using x(2) by simp
    ultimately have "amount r = Number x \<and> amount_2024 r = Some (x * 1.5) \<and> 0 < x * 1.5 \<and>
           (if 2010 \<le> ?y \<and> ?y \<le> 2024 then cpi_multipliers ?y = Some 1.5 else (1.5::real) = 1.5)"
      using x(1) by auto
    then show ?thesis by blast
  next
    case (Some m)
    then have "2010 \<le> ?y \<and> ?y \<le> 2024" using cpi_dom[of ?y] by simp
    moreover have "amount_2024 r = Some (x * m)" using x Some by (simp add: dict_get_def)
    moreover have "0 < x * m" using x(2) cpi_ge_one[OF Some] by (simp add: mult_pos_pos)
    ultimately have "amount r = Number x \<and> amount_2024 r = Some (x * m) \<and> 0 < x * m \<and>
           (if 2010 \<le> ?y \<and> ?y \<le> 2024 then cpi_multipliers ?y = Some m else m = 1.5)"
      using x(1) Some by auto
    then show ?thesis by blast
  qed
qed

theorem clean_dates_amount_2024_witness:
  "\<exists>x m. amount (hd (projr (clean_all sample_files ''fca_settlements_sample.csv''))) = Number x
      \<and> amount_2024 (hd (projr (clean_all sample_files ''fca_settlements_sample.csv''))) = Some (x * m)
      \<and> 0 < x * m"
proof -
  let ?t = "projr (clean_all sample_files ''fca_settlements_sample.csv'')"
  have "20 \<le> length ?t" using clean_all_rows(2)[OF sample_table_cleans] .
  then have "hd ?t \<in> set ?t" by (cases ?t) auto
  from clean_dates_amount_2024[OF sample_table_cleans this] show ?thesis by blast
qed

text \<open>
  Claim C10. Whatever the input table, every row that reaches \<^verbatim>\<open>validate_data\<close> inside
  \<^verbatim>\<open>clean_all\<close> has an amount of at least 10,000 and a CPI multiplier of at least 1, hence
  an \<open>amount_2024\<close> of at least 10,000; the issue "Negative or zero amounts found" is never
  raised, and validation fails only for a table of fewer than twenty rows.
\<close>

theorem positivity_check_unreachable:
  assumes "cleaning_steps raw = Inr data"
  shows "(\<forall>r\<in>set data. \<exists>x a. amount r = Number x \<and> 10000 \<le> x
             \<and> 1 \<le> dict_get cpi_multipliers (row.settlement_year r) 1.5
             \<and> amount_2024 r = Some a \<and> 10000 \<le> a)
         \<and> NonPositiveAmounts \<notin> set (snd (validate_data data))
         \<and> (fst (validate_data data) \<longleftrightarrow> 20 \<le> length data)"
proof -
  have mult: "1 \<le> dict_get cpi_multipliers y 1.5" for y
    using cpi_ge_one[of y] by (cases "cpi_multipliers y") (auto simp: dict_get_def)
  have rows: "\<exists>x a. amount r = Number x \<and> 10000 \<le> x
             \<and> 1 \<le> dict_get cpi_multipliers (row.settlement_year r) 1.5
             \<and> amount_2024 r = Some a \<and> 10000 \<le> a" if "r \<in> set data" for r
  proof -
    from cleaning_steps_rows[OF assms that] obtain x where
      x: "amount r = Number x" "10000 \<le> x"
         "amount_2024 r = Some (x * dict_get cpi_multipliers (row.settlement_year r) 1.5)"
      by blast
    have "x * 1 \<le> x * dict_get cpi_multipliers (row.settlement_year r) 1.5"
      using x(2) mult by (intro mult_left_mono) auto
    then have "10000 \<le> x * dict_get cpi_multipliers (row.settlement_year r) 1.5"
      using x(2) by linarith
    with x mult show ?thesis by auto
  qed
  then have pos: "\<not> list_ex (\<lambda>r. nonpositive (amount_2024 r)) data"
    by (fastforce simp: list_ex_iff nonpositive_def)
  then show ?thesis using rows
    by (auto simp: validate_data_def Let_def)
qed

theorem positivity_check_unreachable_witness:
  "validate_data (projr (cleaning_steps short_table)) = (False, [InsufficientData 2])
   \<and> NonPositiveAmounts \<notin> set (snd (validate_data (projr (cleaning_steps short_table))))"
proof -
  have ok: "\<not> isl (cleaning_steps short_table)"
    by (simp add: short_table_def raw_row_def cleaner_defs)
  then have run: "cleaning_steps short_table = Inr (projr (cleaning_steps short_table))"
    by simp
  have len: "length (projr (cleaning_steps short_table)) = 2"
    by (simp add: short_table_def raw_row_def cleaner_defs)
  from positivity_check_unreachable[OF run] len show ?thesis
    by (auto simp: validate_data_def Let_def)
qed

text \<open>
  Claim C1. The cleaner labels the thresholds with the lower category: an \<open>amount_2024\<close> of
  1,000,000 gets \<open>defendant_size\<close> 0 and one of 10,000,000 gets 1, where the claim states 1
  and 2; 999,999.99 gets 0 and 10,000,000.01 gets 2 as stated. The size estimate of
  \<^verbatim>\<open>create_prediction_input\<close> puts the same four values in 0, 1, 2 and 2.
\<close>

theorem defendant_size_boundaries:
  "map_sum id (map (\<lambda>r. (amount_2024 r, row.defendant_size r))) (cleaning_steps boundary_rows)
     = Inr [(Some 999999.99, 0), (Some 1000000, 0), (Some 10000000, 1), (Some 10000000.01, 2)]
   \<and> map estimate_defendant_size
         [Finite 999999.99, Finite 1000000, Finite 10000000, Finite 10000000.01] = [0, 1, 2, 2]"
  by (simp add: boundary_rows_def raw_row_def cleaner_defs estimate_defendant_size_def)

section \<open>Running the cleaner on its own output\<close>

lemma drop_duplicates_unseen:
  "r \<in> set (drop_duplicates key seen rs) \<Longrightarrow> key r \<notin> set seen"
proof (induction rs arbitrary: seen)
  case Nil
  then show ?case by simp
next
  case (Cons a rs)
  show ?case
  proof (cases "key a \<in> set seen")
    case True
    with Cons show ?thesis by simp
  next
    case False
    with Cons.prems have "r = a \<or> r \<in> set (drop_duplicates key (key a # seen) rs)" by simp
    then show ?thesis
    proof
      assume "r = a"
      with False show ?thesis by simp
    next
      assume "r \<in> set (drop_duplicates key (key a # seen) rs)"
      from Cons.IH[OF this] show ?thesis by simp
    qed
  qed
qed

lemma drop_duplicates_distinct: "distinct (map key (drop_duplicates key seen rs))"
proof (induction rs arbitrary: seen)
  case Nil
  then show ?case by simp
next
  case (Cons r rs)
  have "key r \<notin> set (map key (drop_duplicates key (key r # seen) rs))"
    using drop_duplicates_unseen[of _ key "key r # seen" rs] by fastforce
  with Cons show ?case by simp
qed

lemma drop_duplicates_id:
  "distinct (map key rs) \<Longrightarrow> set (map key rs) \<inter> set seen = {} \<Longrightarrow> drop_duplicates key seen rs = rs"
  by (induction rs arbitrary: seen) auto

lemma remove_duplicates_id: "distinct (map dup_key rs) \<Longrightarrow> remove_duplicates rs = rs"
  by (simp add: remove_duplicates_def drop_duplicates_id)

lemma consistent_row_facts:
  assumes "consistent_row r"
  shows "amount r \<noteq> Missing" and "to_numeric (amount r) = amount r" and "\<not> outlier (amount r)"
    and "to_datetime (date r) = row.settlement_date r" and "row.settlement_date r \<noteq> None"
    and "extract_year r = r"
    and "adjust_for_inflation (amount r) (row.settlement_year r) = amount_2024 r"
    and "fillna ''other'' (row.fraud_type r) = row.fraud_type r"
    and "series_map fraud_type_mapping (row.fraud_type r) = row.fraud_type_code r"
    and "fillna ''other'' (row.industry r) = row.industry r"
    and "series_map industry_mapping (row.industry r) = row.industry_code r"
    and "fillna ''Unknown'' (row.jurisdiction r) = row.jurisdiction r"
    and "astype_int (row.whistleblower r) = row.whistleblower r"
    and "(case amount_2024 r of None \<Rightarrow> None | Some a \<Rightarrow> log1p a) = row.log_amount r"
    and "cut (amount_2024 r) = Some (row.defendant_size r)"
    and "row_severity r = row.fraud_severity r"
proof -
  from assms have
    c1: "case amount r of Number x \<Rightarrow> 10000 \<le> x \<and> x \<le> 1000000000 | Unparseable \<Rightarrow> False | Missing \<Rightarrow> False"
    and c2: "row.settlement_date r = to_datetime (date r)"
    and c3: "case row.settlement_date r of Some (y, m, d) \<Rightarrow> row.settlement_year r = y | None \<Rightarrow> False"
    and c4: "amount_2024 r = adjust_for_inflation (amount r) (row.settlement_year r)"
    and c5: "row.fraud_type r \<noteq> None"
    and c6: "row.fraud_type_code r = series_map fraud_type_mapping (row.fraud_type r)"
    and c7: "row.industry r \<noteq> None"
    and c8: "row.industry_code r = series_map industry_mapping (row.industry r)"
    and c9: "row.jurisdiction r \<noteq> None"
    and c10: "astype_int (row.whistleblower r) = row.whistleblower r"
    and c11: "row.log_amount r = (case amount_2024 r of None \<Rightarrow> None | Some a \<Rightarrow> log1p a)"
    and c12: "cut (amount_2024 r) = Some (row.defendant_size r)"
    and c13: "row.fraud_severity r = row_severity r"
    unfolding consistent_row_def by blast+
  from c1 obtain x where x: "amount r = Number x" "10000 \<le> x" "x \<le> 1000000000"
    by (cases "amount r") auto
  from c3 obtain y m d where sd: "row.settlement_date r = Some (y, m, d)" "row.settlement_year r = y"
    by (cases "row.settlement_date r") auto
  show "amount r \<noteq> Missing" "to_numeric (amount r) = amount r" "\<not> outlier (amount r)"
    using x by simp_all
  show "to_datetime (date r) = row.settlement_date r" using c2 by simp
  show "row.settlement_date r \<noteq> None" using sd by simp
  have "r\<lparr>row.settlement_year := row.settlement_year r\<rparr> = r" by simp
  then show "extract_year r = r" using sd by (simp add: extract_year_def)
  show "adjust_for_inflation (amount r) (row.settlement_year r) = amount_2024 r"
    using c4 by simp
  show "fillna ''other'' (row.fraud_type r) = row.fraud_type r"
    using c5 by (cases "row.fraud_type r") (simp_all add: fillna_def)
  show "fillna ''other'' (row.industry r) = row.industry r"
    using c7 by (cases "row.industry r") (simp_all add: fillna_def)
  show "fillna ''Unknown'' (row.jurisdiction r) = row.jurisdiction r"
    using c9 by (cases "row.jurisdiction r") (simp_all add: fillna_def)
  show "series_map fraud_type_mapping (row.fraud_type r) = row.fraud_type_code r"
    using c6 by simp
  show "series_map industry_mapping (row.industry r) = row.industry_code r"
    using c8 by simp
  show "astype_int (row.whistleblower r) = row.whistleblower r" by (rule c10)
  show "(case amount_2024 r of None \<Rightarrow> None | Some a \<Rightarrow> log1p a) = row.log_amount r"
    using c11 by simp
  show "cut (amount_2024 r) = Some (row.defendant_size r)" by (rule c12)
  show "row_severity r = row.fraud_severity r" using c13 by simp
qed

lemma clean_amounts_id:
  assumes "\<forall>r\<in>set t. consistent_row r"
  shows "clean_amounts t = t"
proof -
  have 1: "filter (\<lambda>r. amount r \<noteq> Missing) t = t"
    using assms consistent_row_facts(1) by (simp add: filter_id_conv)
  have 2: "map (\<lambda>r. r\<lparr>amount := to_numeric (amount r)\<rparr>) t = t"
    using assms consistent_row_facts(2) by (intro map_idI) simp
  have 3: "filter (\<lambda>r. \<not> outlier (amount r)) t = t"
    using assms consistent_row_facts(3) by (simp add: filter_id_conv)
  show ?thesis unfolding clean_amounts_def 1 2 3 ..
qed

lemma clean_dates_id:
  assumes "\<forall>r\<in>set t. consistent_row r"
  shows "clean_dates t = t"
proof -
  have 1: "map (\<lambda>r. r\<lparr>settlement_date := to_datetime (date r)\<rparr>) t = t"
    using assms consistent_row_facts(4) by (intro map_idI) simp
  have 2: "filter (\<lambda>r. settlement_date r \<noteq> None) t = t"
    using assms consistent_row_facts(5) by (simp add: filter_id_conv)
  have 3: "map extract_year t = t"
    using assms consistent_row_facts(6) by (intro map_idI) simp
  have 4: "map (\<lambda>r. r\<lparr>amount_2024 := adjust_for_inflation (amount r) (row.settlement_year r)\<rparr>) t = t"
    using assms consistent_row_facts(7) by (intro map_idI) simp
  show ?thesis unfolding clean_dates_def 1 2 3 4 ..
qed

lemma encode_categories_recode:
  assumes "\<forall>r\<in>set t. consistent_row r"
  shows "encode_categories t = assign_jurisdiction_codes t"
proof -
  have 1: "map (\<lambda>r. r\<lparr>row.fraud_type := fillna ''other'' (row.fraud_type r)\<rparr>) t = t"
    using assms consistent_row_facts(8) by (intro map_idI) simp
  have 2: "map (\<lambda>r. r\<lparr>row.fraud_type_code := series_map fraud_type_mapping (row.fraud_type r)\<rparr>) t = t"
    using assms consistent_row_facts(9) by (intro map_idI) simp
  have 3: "map (\<lambda>r. r\<lparr>row.industry := fillna ''other'' (row.industry r)\<rparr>) t = t"
    using assms consistent_row_facts(10) by (intro map_idI) simp
  have 4: "map (\<lambda>r. r\<lparr>row.industry_code := series_map industry_mapping (row.industry r)\<rparr>) t = t"
    using assms consistent_row_facts(11) by (intro map_idI) simp
  have 5: "map (\<lambda>r. r\<lparr>row.jurisdiction := fillna ''Unknown'' (row.jurisdiction r)\<rparr>) t = t"
    using assms consistent_row_facts(12) by (intro map_idI) simp
  have 6: "map (\<lambda>r. r\<lparr>row.whistleblower := astype_int (row.whistleblower r)\<rparr>) (assign_jurisdiction_codes t)
             = assign_jurisdiction_codes t"
    using assms consistent_row_facts(13) by (intro map_idI) (auto simp: assign_jurisdiction_codes_def)
  show ?thesis unfolding encode_categories_def 1 2 3 4 5 6 ..
qed

lemma consistent_row_recode:
  "consistent_row (r\<lparr>row.jurisdiction_code := c\<rparr>) = consistent_row r"
  by (simp add: consistent_row_def row_severity_def cong: option.case_cong)

lemma assign_jurisdiction_codes_consistent:
  assumes "\<forall>r\<in>set t. consistent_row r"
  shows "\<forall>r\<in>set (assign_jurisdiction_codes t). consistent_row r"
  using assms by (auto simp: assign_jurisdiction_codes_def consistent_row_recode)

lemma assign_jurisdiction_codes_keys:
  "map dup_key (assign_jurisdiction_codes t) = map dup_key t"
  by (simp add: assign_jurisdiction_codes_def dup_key_def)

lemma assign_sizes_id:
  assumes "\<forall>r\<in>set t. cut (amount_2024 r) = Some (row.defendant_size r)"
  shows "assign_sizes t = Inr t"
  using assms by (induction t) auto

lemma create_features_id:
  assumes "\<forall>r\<in>set t. consistent_row r"
  shows "create_features t = Inr t"
proof -
  have 1: "map (\<lambda>r. r\<lparr>row.log_amount := (case amount_2024 r of None \<Rightarrow> None | Some a \<Rightarrow> log1p a)\<rparr>) t = t"
    using assms consistent_row_facts(14) by (intro map_idI) simp
  have 2: "assign_sizes t = Inr t"
    using assms consistent_row_facts(15) by (intro assign_sizes_id) simp
  have 3: "map (\<lambda>r. r\<lparr>row.fraud_severity := row_severity r\<rparr>) t = t"
    using assms consistent_row_facts(16) by (intro map_idI) simp
  show ?thesis unfolding create_features_def 1 2 sum.case 3 ..
qed

lemma cleaning_steps_recode:
  assumes "\<forall>r\<in>set t. consistent_row r" and "distinct (map dup_key t)"
  shows "cleaning_steps t = Inr (assign_jurisdiction_codes t)"
proof -
  let ?t2 = "assign_jurisdiction_codes t"
  have c: "\<forall>r\<in>set ?t2. consistent_row r"
    using assign_jurisdiction_codes_consistent[OF assms(1)] .
  have d: "distinct (map dup_key ?t2)"
    using assms(2) by (simp add: assign_jurisdiction_codes_keys)
  show ?thesis
    unfolding cleaning_steps_def clean_amounts_id[OF assms(1)] clean_dates_id[OF assms(1)]
      encode_categories_recode[OF assms(1)] create_features_id[OF c] sum.case
      remove_duplicates_id[OF d] ..
qed


lemma astype_int_idem: "astype_int (astype_int w) = astype_int w"
  by (cases w) simp_all

lemma encoded_rows:
  assumes "r \<in> set (encode_categories (clean_dates (clean_amounts t)))"
  shows "(amount r = Missing \<or> (\<exists>x. amount r = Number x \<and> 10000 \<le> x \<and> x \<le> 1000000000))
         \<and> row.settlement_date r = to_datetime (date r)
         \<and> (case row.settlement_date r of Some (y, m, d) \<Rightarrow> row.settlement_year r = y | None \<Rightarrow> False)
         \<and> amount_2024 r = adjust_for_inflation (amount r) (row.settlement_year r)
         \<and> row.fraud_type r \<noteq> None
         \<and> row.fraud_type_code r = series_map fraud_type_mapping (row.fraud_type r)
         \<and> row.industry r \<noteq> None
         \<and> row.industry_code r = series_map industry_mapping (row.industry r)
         \<and> row.jurisdiction r \<noteq> None
         \<and> astype_int (row.whistleblower r) = row.whistleblower r"
proof -
  from assms obtain q c where q: "q \<in> set (clean_dates (clean_amounts t))"
    and r: "r = q\<lparr>row.fraud_type := fillna ''other'' (row.fraud_type q),
                   row.fraud_type_code := series_map fraud_type_mapping (fillna ''other'' (row.fraud_type q)),
                   row.industry := fillna ''other'' (row.industry q),
                   row.industry_code := series_map industry_mapping (fillna ''other'' (row.industry q)),
                   row.jurisdiction := fillna ''Unknown'' (row.jurisdiction q),
                   row.jurisdiction_code := c,
                   row.whistleblower := astype_int (row.whistleblower q)\<rparr>"
    unfolding encode_categories_def assign_jurisdiction_codes_def by auto
  from q obtain p where p: "p \<in> set (clean_amounts t)"
    and sd: "to_datetime (date p) \<noteq> None"
    and q': "q = extract_year (p\<lparr>row.settlement_date := to_datetime (date p)\<rparr>)
                   \<lparr>amount_2024 := adjust_for_inflation (amount p)
                       (row.settlement_year (extract_year (p\<lparr>row.settlement_date := to_datetime (date p)\<rparr>)))\<rparr>"
    unfolding clean_dates_def by (auto simp: extract_year_def split: option.splits)
  from sd obtain y m d where ymd: "to_datetime (date p) = Some (y, m, d)" by auto
  have q'': "q = p\<lparr>row.settlement_date := Some (y, m, d), row.settlement_year := y,
                    amount_2024 := adjust_for_inflation (amount p) y\<rparr>"
    using q' ymd by (simp add: extract_year_def)
  have amt: "amount p = Missing \<or> (\<exists>x. amount p = Number x \<and> 10000 \<le> x \<and> x \<le> 1000000000)"
    using clean_amounts_range[OF p] .
  show ?thesis
    using amt ymd unfolding r q''
    by (simp add: fillna_def astype_int_idem split: option.splits)
qed


lemma assign_sizes_map:
  "assign_sizes xs = Inr ys \<Longrightarrow>
     ys = map (\<lambda>r. r\<lparr>row.defendant_size :=
                        (case cut (amount_2024 r) of None \<Rightarrow> row.defendant_size r | Some s \<Rightarrow> s)\<rparr>) xs
     \<and> (\<forall>r\<in>set xs. cut (amount_2024 r) \<noteq> None)"
proof (induction xs arbitrary: ys)
  case Nil
  then show ?case by simp
next
  case (Cons a xs)
  then show ?case by (auto split: option.splits sum.splits)
qed

lemma row_severity_features:
  "row_severity (r\<lparr>row.log_amount := l, row.defendant_size := s\<rparr>) = row_severity r"
  by (simp add: row_severity_def cong: option.case_cong)

lemma create_features_map:
  assumes "create_features e = Inr d"
  shows "d = map (\<lambda>r. r\<lparr>row.log_amount := (case amount_2024 r of None \<Rightarrow> None | Some a \<Rightarrow> log1p a),
                         row.defendant_size :=
                           (case cut (amount_2024 r) of None \<Rightarrow> row.defendant_size r | Some s \<Rightarrow> s),
                         row.fraud_severity := row_severity r\<rparr>) e"
    and "\<forall>r\<in>set e. cut (amount_2024 r) \<noteq> None"
proof -
  let ?e1 = "map (\<lambda>r. r\<lparr>row.log_amount := (case amount_2024 r of None \<Rightarrow> None | Some a \<Rightarrow> log1p a)\<rparr>) e"
  from assms obtain d2 where d2: "assign_sizes ?e1 = Inr d2"
    and d: "d = map (\<lambda>r. r\<lparr>row.fraud_severity := row_severity r\<rparr>) d2"
    unfolding create_features_def by (auto split: sum.splits)
  from assign_sizes_map[OF d2] have
    m: "d2 = map (\<lambda>r. r\<lparr>row.defendant_size :=
                        (case cut (amount_2024 r) of None \<Rightarrow> row.defendant_size r | Some s \<Rightarrow> s)\<rparr>) ?e1"
    and c: "\<forall>r\<in>set ?e1. cut (amount_2024 r) \<noteq> None"
    by blast+
  show "\<forall>r\<in>set e. cut (amount_2024 r) \<noteq> None" using c by simp
  show "d = map (\<lambda>r. r\<lparr>row.log_amount := (case amount_2024 r of None \<Rightarrow> None | Some a \<Rightarrow> log1p a),
                         row.defendant_size :=
                           (case cut (amount_2024 r) of None \<Rightarrow> row.defendant_size r | Some s \<Rightarrow> s),
                         row.fraud_severity := row_severity r\<rparr>) e"
    unfolding d m by (simp add: row_severity_features comp_def cong: option.case_cong)
qed

lemma featured_rows_consistent:
  assumes "create_features (encode_categories (clean_dates (clean_amounts t))) = Inr d"
    and "r \<in> set d"
  shows "consistent_row r"
proof -
  let ?e = "encode_categories (clean_dates (clean_amounts t))"
  from create_features_map[OF assms(1)] assms(2) obtain q where q: "q \<in> set ?e"
    and cutq: "cut (amount_2024 q) \<noteq> None"
    and r: "r = q\<lparr>row.log_amount := (case amount_2024 q of None \<Rightarrow> None | Some a \<Rightarrow> log1p a),
                  row.defendant_size :=
                    (case cut (amount_2024 q) of None \<Rightarrow> row.defendant_size q | Some s \<Rightarrow> s),
                  row.fraud_severity := row_severity q\<rparr>"
    by auto
  note e = encoded_rows[OF q]
  from cutq obtain s where s: "cut (amount_2024 q) = Some s" by auto
  then obtain a where a: "amount_2024 q = Some a" by (cases "amount_2024 q") (auto simp: cut_def)
  with e have "amount q \<noteq> Missing" by (auto simp: adjust_for_inflation_def Let_def)
  with e obtain x where x: "amount q = Number x" "10000 \<le> x" "x \<le> 1000000000" by auto
  have sev: "row_severity r = row_severity q"
    unfolding r by (simp add: row_severity_def cong: option.case_cong)
  show ?thesis
    unfolding consistent_row_def sev
    unfolding r using e x s a by (auto split: option.splits)
qed

lemma cleaning_steps_consistent:
  assumes "cleaning_steps t = Inr t1"
  shows "\<forall>r\<in>set t1. consistent_row r" and "distinct (map dup_key t1)"
proof -
  from assms obtain d where d: "create_features (encode_categories (clean_dates (clean_amounts t))) = Inr d"
    and t1: "t1 = remove_duplicates d"
    unfolding cleaning_steps_def by (auto split: sum.splits)
  show "\<forall>r\<in>set t1. consistent_row r"
    using featured_rows_consistent[OF d] drop_duplicates_subset[of dup_key "[]" d]
    unfolding t1 remove_duplicates_def by blast
  show "distinct (map dup_key t1)"
    unfolding t1 remove_duplicates_def by (rule drop_duplicates_distinct)
qed


lemma consistent_row_positive:
  assumes "consistent_row r"
  shows "\<not> nonpositive (amount_2024 r)"
proof -
  from consistent_row_facts(15)[OF assms] show ?thesis
    by (cases "amount_2024 r") (auto simp: cut_def nonpositive_def split: if_splits)
qed

lemma validate_consistent:
  assumes "\<forall>r\<in>set t. consistent_row r"
  shows "fst (validate_data t) \<longleftrightarrow> 20 \<le> length t"
proof -
  have "\<not> list_ex (\<lambda>r. nonpositive (amount_2024 r)) t"
    using assms consistent_row_positive by (auto simp: list_ex_iff)
  then show ?thesis by (auto simp: validate_data_def Let_def)
qed

lemma length_assign_jurisdiction_codes [simp]:
  "length (assign_jurisdiction_codes t) = length t"
  by (simp add: assign_jurisdiction_codes_def)

lemma clean_table_recode:
  assumes "clean_table t = Inr t1"
  shows "clean_table t1 = Inr (assign_jurisdiction_codes t1)"
proof -
  from assms have steps: "cleaning_steps t = Inr t1" and valid: "fst (validate_data t1)"
    unfolding clean_table_def by (auto split: sum.splits if_splits)
  note c = cleaning_steps_consistent[OF steps]
  have len: "20 \<le> length t1" using valid validate_consistent[OF c(1)] by simp
  have "fst (validate_data (assign_jurisdiction_codes t1))"
    using validate_consistent[OF assign_jurisdiction_codes_consistent[OF c(1)]] len by simp
  then show ?thesis
    unfolding clean_table_def cleaning_steps_recode[OF c] by simp
qed

lemma assign_jurisdiction_codes_idem:
  "assign_jurisdiction_codes (assign_jurisdiction_codes t) = assign_jurisdiction_codes t"
  by (simp add: assign_jurisdiction_codes_def comp_def)

lemma encode_categories_codes:
  "assign_jurisdiction_codes (encode_categories x) = encode_categories x"
  by (simp add: encode_categories_def assign_jurisdiction_codes_def comp_def)

lemma row_severity_recode:
  "row_severity (r\<lparr>row.jurisdiction_code := c\<rparr>) = row_severity r"
  by (simp add: row_severity_def cong: option.case_cong)

lemma create_features_codes:
  assumes "create_features e = Inr d" and "assign_jurisdiction_codes e = e"
  shows "assign_jurisdiction_codes d = d"
proof -
  let ?h = "\<lambda>r. r\<lparr>row.log_amount := (case amount_2024 r of None \<Rightarrow> None | Some a \<Rightarrow> log1p a),
                   row.defendant_size :=
                     (case cut (amount_2024 r) of None \<Rightarrow> row.defendant_size r | Some s \<Rightarrow> s),
                   row.fraud_severity := row_severity r\<rparr>"
  have d: "d = map ?h e" using create_features_map(1)[OF assms(1)] .
  have "assign_jurisdiction_codes (map ?h e) = map ?h (assign_jurisdiction_codes e)"
    by (simp add: assign_jurisdiction_codes_def comp_def row_severity_recode cong: option.case_cong)
  then show ?thesis unfolding d assms(2) .
qed


lemma to_numeric_idem: "to_numeric (to_numeric a) = to_numeric a"
  by (cases a) simp_all

lemma raw_key_updates:
  "raw_key (r\<lparr>amount := to_numeric (amount r)\<rparr>) = raw_key r"
  "raw_key (r\<lparr>row.settlement_date := sd\<rparr>) = raw_key r"
  "raw_key (r\<lparr>row.settlement_year := y\<rparr>) = raw_key r"
  "raw_key (r\<lparr>amount_2024 := a\<rparr>) = raw_key r"
  "raw_key (r\<lparr>row.fraud_type := ft\<rparr>) = raw_key r"
  "raw_key (r\<lparr>row.fraud_type_code := fc\<rparr>) = raw_key r"
  "raw_key (r\<lparr>row.industry := ind\<rparr>) = raw_key r"
  "raw_key (r\<lparr>row.industry_code := ic\<rparr>) = raw_key r"
  "raw_key (r\<lparr>row.jurisdiction := j\<rparr>) = raw_key r"
  "raw_key (r\<lparr>row.jurisdiction_code := jc\<rparr>) = raw_key r"
  "raw_key (r\<lparr>row.whistleblower := w\<rparr>) = raw_key r"
  "raw_key (r\<lparr>row.log_amount := l\<rparr>) = raw_key r"
  "raw_key (r\<lparr>row.defendant_size := s\<rparr>) = raw_key r"
  "raw_key (r\<lparr>row.fraud_severity := fs\<rparr>) = raw_key r"
  by (simp_all add: raw_key_def to_numeric_idem)

lemma raw_key_extract_year: "raw_key (extract_year r) = raw_key r"
  by (simp add: extract_year_def raw_key_updates split: option.splits)

lemma distinct_raw_key_encoded:
  assumes "distinct (map raw_key t)"
  shows "distinct (map raw_key (encode_categories (clean_dates (clean_amounts t))))"
proof -
  have a: "distinct (map raw_key (clean_amounts t))"
    unfolding clean_amounts_def
    using assms
    by (simp add: filter_map comp_def raw_key_updates distinct_map_filter)
  have d: "distinct (map raw_key (clean_dates (clean_amounts t)))"
    unfolding clean_dates_def
    using a
    by (simp add: filter_map comp_def raw_key_extract_year raw_key_updates distinct_map_filter)
  show ?thesis
    unfolding encode_categories_def assign_jurisdiction_codes_def
    using d by (simp add: comp_def raw_key_updates)
qed

lemma distinct_dup_key_consistent:
  assumes "\<forall>r\<in>set d. consistent_row r" and "distinct (map raw_key d)"
  shows "distinct (map dup_key d)"
proof -
  have k: "raw_key r = (defendant r, amount r, Some (row.settlement_year r))"
    if "consistent_row r" for r
  proof -
    from that have c2: "row.settlement_date r = to_datetime (date r)"
      and c3: "case row.settlement_date r of Some (y, m, d) \<Rightarrow> row.settlement_year r = y | None \<Rightarrow> False"
      unfolding consistent_row_def by blast+
    from c3 obtain y m d where "row.settlement_date r = Some (y, m, d)" "row.settlement_year r = y"
      by (cases "row.settlement_date r") auto
    then show ?thesis
      using c2 consistent_row_facts(2)[OF that] by (simp add: raw_key_def)
  qed
  from assms(2) have dist: "distinct d" and inj: "inj_on raw_key (set d)"
    by (simp_all add: distinct_map)
  have "inj_on dup_key (set d)"
  proof (rule inj_onI)
    fix r r' assume r: "r \<in> set d" and r': "r' \<in> set d" and eq: "dup_key r = dup_key r'"
    have "raw_key r = raw_key r'"
      using k[of r] k[of r'] assms(1) r r' eq by (simp add: dup_key_def)
    with inj r r' show "r = r'" by (auto dest: inj_onD)
  qed
  with dist show ?thesis by (simp add: distinct_map)
qed

lemma cleaning_steps_no_duplicates:
  assumes "cleaning_steps t = Inr t1" and "distinct (map raw_key t)"
  shows "assign_jurisdiction_codes t1 = t1"
proof -
  let ?e = "encode_categories (clean_dates (clean_amounts t))"
  from assms(1) obtain d where d: "create_features ?e = Inr d" and t1: "t1 = remove_duplicates d"
    unfolding cleaning_steps_def by (auto split: sum.splits)
  have "map raw_key d = map raw_key ?e"
    unfolding create_features_map(1)[OF d] by (simp add: comp_def raw_key_updates)
  then have "distinct (map raw_key d)"
    using distinct_raw_key_encoded[OF assms(2)] by simp
  moreover have "\<forall>r\<in>set d. consistent_row r"
    using featured_rows_consistent[OF d] by blast
  ultimately have "distinct (map dup_key d)" by (intro distinct_dup_key_consistent)
  then have "t1 = d" unfolding t1 by (rule remove_duplicates_id)
  moreover have "assign_jurisdiction_codes d = d"
    using create_features_codes[OF d encode_categories_codes] .
  ultimately show ?thesis by simp
qed

lemma cleaned_is_already_cleaned:
  assumes "cleaning_steps t = Inr t1"
  shows "already_cleaned t1"
proof -
  note c = cleaning_steps_consistent[OF assms]
  have "(case amount r of Number x \<Rightarrow> 10000 \<le> x \<and> x \<le> 1000000000 | Unparseable \<Rightarrow> False | Missing \<Rightarrow> False)
        \<and> to_datetime (date r) \<noteq> None \<and> row.fraud_type r \<noteq> None \<and> row.industry r \<noteq> None
        \<and> row.jurisdiction r \<noteq> None" if "r \<in> set t1" for r
  proof -
    from c(1) that have cr: "consistent_row r" by blast
    then show ?thesis
      using consistent_row_facts(4,5)[OF cr] unfolding consistent_row_def by simp
  qed
  then show ?thesis using c(2) by (simp add: already_cleaned_def list_all_iff)
qed

lemma replicate_20: "replicate 20 x = [x, x, x, x, x, x, x, x, x, x, x, x, x, x, x, x, x, x, x, x]"
  by (simp add: eval_nat_numeral)

lemma duplicated_table_cleaned:
  "map_sum id (map (\<lambda>r. (row.jurisdiction r, row.jurisdiction_code r))) (clean_table duplicated_table)
     = Inr (replicate 20 (Some ''SDNY'', 1))"
  by (simp add: duplicated_table_def sample_table_def raw_row_def cleaner_defs replicate_20)

lemma sample_table_distinct: "distinct (map raw_key sample_table)"
  by (simp add: sample_table_def raw_row_def raw_key_def)

text \<open>
  Claim C9, as stated, fails. The table cleaned from \<open>duplicated_table\<close> has no duplicate
  triple, no amount out of range and no missing field, and every one of its twenty rows
  has \<open>jurisdiction_code\<close> 1, assigned while the dropped duplicate still contributed the
  jurisdiction EDVA; cleaning that table again gives every row the code 0.
\<close>

theorem recleaning_changes_jurisdiction_code:
  "\<not> isl (clean_table duplicated_table)
   \<and> already_cleaned (projr (clean_table duplicated_table))
   \<and> map row.jurisdiction_code (projr (clean_table duplicated_table)) = replicate 20 1
   \<and> \<not> isl (clean_table (projr (clean_table duplicated_table)))
   \<and> map row.jurisdiction_code (projr (clean_table (projr (clean_table duplicated_table))))
        = replicate 20 0"
proof -
  obtain t1 where run: "clean_table duplicated_table = Inr t1"
    using duplicated_table_cleaned by (cases "clean_table duplicated_table") auto
  have cols: "map (\<lambda>r. (row.jurisdiction r, row.jurisdiction_code r)) t1 = replicate 20 (Some ''SDNY'', 1)"
    using duplicated_table_cleaned unfolding run by simp
  have j: "map row.jurisdiction t1 = replicate 20 (Some ''SDNY'')"
    using arg_cong[OF cols, of "map fst"] by (simp add: comp_def)
  have c: "map row.jurisdiction_code t1 = replicate 20 1"
    using arg_cong[OF cols, of "map snd"] by (simp add: comp_def)
  from run have steps: "cleaning_steps duplicated_table = Inr t1"
    unfolding clean_table_def by (auto split: sum.splits if_splits)
  have again: "clean_table t1 = Inr (assign_jurisdiction_codes t1)"
    using clean_table_recode[OF run] .
  have "map row.jurisdiction_code (assign_jurisdiction_codes t1)
          = map (categorical_code (map row.jurisdiction t1)) (map row.jurisdiction t1)"
    by (simp add: assign_jurisdiction_codes_def comp_def)
  also have "\<dots> = replicate 20 0"
    unfolding j by (simp add: categorical_code_def categories_def replicate_20)
  finally have c2: "map row.jurisdiction_code (assign_jurisdiction_codes t1) = replicate 20 0" .
  show ?thesis
    unfolding run sum.sel again
    using cleaned_is_already_cleaned[OF steps] c c2 by simp
qed

text \<open>
  Claim C9, amended. Cleaning a table that the cleaner returned succeeds again, with the
  same row count and the same values in every column other than \<open>jurisdiction_code\<close>, and
  the new \<open>jurisdiction_code\<close> of a row is the position of its jurisdiction among the sorted
  distinct jurisdictions of the table being cleaned again; when the table was cleaned from
  an input without duplicate (defendant, amount, year) triples, \<open>jurisdiction_code\<close> is
  unchanged as well and the result is the very same table.
\<close>

theorem recleaning_changes_only_jurisdiction_code:
  assumes "clean_table t = Inr t1"
  shows "\<exists>t2. clean_table t1 = Inr t2 \<and> length t2 = length t1
           \<and> (\<forall>i<length t1.
                  t2 ! i = (t1 ! i)\<lparr>row.jurisdiction_code :=
                              categorical_code (map row.jurisdiction t1) (row.jurisdiction (t1 ! i))\<rparr>)
           \<and> (distinct (map raw_key t) \<longrightarrow> t2 = t1)"
proof -
  from assms have steps: "cleaning_steps t = Inr t1"
    unfolding clean_table_def by (auto split: sum.splits if_splits)
  let ?t2 = "assign_jurisdiction_codes t1"
  have 1: "clean_table t1 = Inr ?t2" using clean_table_recode[OF assms] .
  have 2: "length ?t2 = length t1" by simp
  have 3: "\<forall>i<length t1.
             ?t2 ! i = (t1 ! i)\<lparr>row.jurisdiction_code :=
                          categorical_code (map row.jurisdiction t1) (row.jurisdiction (t1 ! i))\<rparr>"
    by (simp add: assign_jurisdiction_codes_def)
  have 4: "distinct (map raw_key t) \<longrightarrow> ?t2 = t1"
    using cleaning_steps_no_duplicates[OF steps] by blast
  from 1 2 3 4 show ?thesis by blast
qed

theorem recleaning_changes_only_jurisdiction_code_witness:
  "distinct (map raw_key sample_table)
   \<and> \<not> isl (clean_table sample_table)
   \<and> clean_table (projr (clean_table sample_table)) = Inr (projr (clean_table sample_table))"
proof -
  have "clean_all sample_files ''fca_settlements_sample.csv'' = clean_table sample_table"
    by (simp add: clean_all_def load_data_def endswith_def sample_files_def)
  with sample_table_cleans obtain t1 where run: "clean_table sample_table = Inr t1"
    by simp
  from recleaning_changes_only_jurisdiction_code[OF run] sample_table_distinct
  have "clean_table t1 = Inr t1" by auto
  then show ?thesis
    unfolding run sum.sel using sample_table_distinct by simp
qed

section \<open>Properties of the serving endpoint\<close>

lemmas engine_defs = create_prediction_input_def prediction_frame_def transform_new_data_def
  engine_create_features_def feature_columns_def scaler_transform_def
  predict_settlement_range_def



lemma lower_examples: "lower ''bogus'' = ''bogus''" "lower ''healthcare'' = ''healthcare''"
  "lower ''pharmaceutical'' = ''pharmaceutical''"
  by (simp_all add: lower_def lower_char_def dict_get_def)

text \<open>
  Claim C3. Started with no artifact files, the endpoint keeps the freshly constructed,
  unfitted predictor. The health check does not report that state: its truth test of the
  unfitted forest raises, and \<^verbatim>\<open>GET /\<close> is answered with 500. A prediction call is answered
  with 500 (or 400, or 422), never with 503.
\<close>

theorem unloaded_predict_is_not_503:
  "load_model Absent Absent = Some new_predictor
   \<and> get_health (load_model Absent Absent) = Inl InternalServerError
   \<and> (\<exists>detail. post_predict hash (load_model Absent Absent) example_request
          = Inl (HTTPException 500 (''Prediction failed: '' @ detail)))
   \<and> (\<exists>e. post_predict hash (load_model Absent Absent) request = Inl e \<and> status_code e \<in> {400, 422, 500})"
  by (simp add: load_model_def get_health_def health_check_def model_truth_def post_predict_def
      predict_settlement_def example_request_def request_valid_def new_predictor_def engine_defs
      lower_examples valid_fraud_types_def valid_industries_def Let_def)




lemma valid_damages:
  assumes "request_valid req"
  shows "damages_claimed req = PosInf \<or> (\<exists>x. 0 < x \<and> damages_claimed req = Finite x)"
  using assms unfolding request_valid_def by (cases "damages_claimed req") auto





lemma exp_15: "exp (15::real) \<le> 3 ^ 15"
proof -
  have "exp (15::real) = exp (of_nat 15 * 1)" by simp
  also have "\<dots> = exp 1 ^ 15" by (rule exp_of_nat_mult)
  also have "\<dots> \<le> 3 ^ 15" using exp_le by (intro power_mono) simp_all
  finally show ?thesis .
qed

lemma no_overflow_expm1:
  assumes "x \<le> 15"
  shows "\<not> overflows (expm1 x)"
proof -
  have "exp x \<le> exp 15" using assms by simp
  with exp_15 have "exp x \<le> 3 ^ 15" by linarith
  moreover have "(3::real) ^ 15 \<le> float_max" by (simp add: float_max_def)
  ultimately show ?thesis by (simp add: overflows_def expm1_def)
qed

lemma example_prediction:
  "\<exists>res. predict_settlement_range hash example_predictor ft (Finite 10000000) ind jur wb yr = Inr res
      \<and> prediction_json_compliant res"
  by (simp add: example_predictor_def engine_defs Let_def prediction_json_compliant_def
      percentile_def no_overflow_expm1)





text \<open>
  Claim C5. A request whose fraud type is outside the vocabulary is rejected by
  \<^verbatim>\<open>POST /predict\<close> with 400 and the list of the eight values, but the batch endpoint does
  not validate it: the item succeeds, with the unknown type mapped to code 7 ("other").
\<close>

theorem batch_accepts_unknown_fraud_type:
  "lower (fraud_type unknown_type_request) \<notin> set valid_fraud_types
   \<and> request_valid unknown_type_request
   \<and> post_predict hash (Some example_predictor) unknown_type_request
        = Inl (HTTPException 400 ''Invalid fraud_type. Must be one of: healthcare, defense, covid, procurement, grant, housing, education, other'')
   \<and> map status (results (projr (post_batch_predict hash (Some example_predictor) [unknown_type_request])))
        = [''success'']
   \<and> base_frame.fraud_type_code
        (prediction_frame hash (fraud_type unknown_type_request) d i j w y l) = 7"
  using example_prediction[of hash "''bogus''" "''pharmaceutical''" "''Southern District of New York''" True 2024]
  by (auto simp add: unknown_type_request_def example_request_def request_valid_def post_predict_def
      predict_settlement_def post_batch_predict_def batch_predict_def batch_item_of_def lower_examples
      valid_fraud_types_def prediction_frame_def dict_get_def fraud_type_mapping_def Let_def
      split: sum.splits)

section \<open>Properties of the predictor\<close>

lemma percentile_interp: "percentile a q = interp (sort a) (q / 100 * real (length a - 1))"
  by (simp add: percentile_def interp_def Let_def)

lemma interp_bounds:
  assumes "sorted s" and "s \<noteq> []" and "0 \<le> pos" and "pos \<le> real (length s - 1)"
  shows "s ! nat \<lfloor>pos\<rfloor> \<le> interp s pos"
    and "interp s pos \<le> s ! min (nat \<lfloor>pos\<rfloor> + 1) (length s - 1)"
proof -
  let ?lo = "nat \<lfloor>pos\<rfloor>" and ?hi = "min (nat \<lfloor>pos\<rfloor> + 1) (length s - 1)"
  let ?f = "pos - real ?lo"
  have lo_le: "?lo \<le> length s - 1" using assms(3,4) by linarith
  have hi_lt: "?hi < length s" using assms(2) by (cases s) auto
  have lo_hi: "?lo \<le> ?hi" using lo_le by simp
  have d: "0 \<le> s ! ?hi - s ! ?lo"
    using sorted_nth_mono[OF assms(1) lo_hi hi_lt] by simp
  have f0: "0 \<le> ?f" using assms(3) by linarith
  have f1: "?f \<le> 1" using assms(3) by linarith
  have "0 \<le> ?f * (s ! ?hi - s ! ?lo)" using f0 d by simp
  then show "s ! ?lo \<le> interp s pos" by (simp add: interp_def)
  have "?f * (s ! ?hi - s ! ?lo) \<le> 1 * (s ! ?hi - s ! ?lo)"
    using f1 d by (intro mult_right_mono) auto
  then show "interp s pos \<le> s ! ?hi" by (simp add: interp_def)
qed

lemma interp_mono:
  assumes "sorted s" and "s \<noteq> []" and "0 \<le> p1" and "p1 \<le> p2" and "p2 \<le> real (length s - 1)"
  shows "interp s p1 \<le> interp s p2"
proof -
  let ?l1 = "nat \<lfloor>p1\<rfloor>" and ?l2 = "nat \<lfloor>p2\<rfloor>"
  let ?h1 = "min (?l1 + 1) (length s - 1)"
  have l12: "?l1 \<le> ?l2" using assms(3,4) by (simp add: floor_mono nat_mono)
  have l2_lt: "?l2 < length s"
  proof -
    have "?l2 \<le> length s - 1" using assms(3,4,5) by linarith
    then show ?thesis using assms(2) by (cases s) auto
  qed
  show ?thesis
  proof (cases "?l1 = ?l2")
    case True
    let ?h = "min (?l2 + 1) (length s - 1)"
    have hi_lt: "?h < length s" using assms(2) by (cases s) auto
    have "?l2 \<le> ?h" using l2_lt by simp
    then have d: "0 \<le> s ! ?h - s ! ?l2"
      using sorted_nth_mono[OF assms(1) _ hi_lt] by simp
    have "interp s p2 - interp s p1 = (p2 - p1) * (s ! ?h - s ! ?l2)"
      using True by (simp add: interp_def algebra_simps)
    moreover have "0 \<le> (p2 - p1) * (s ! ?h - s ! ?l2)"
      using assms(4) d by simp
    ultimately show ?thesis by linarith
  next
    case False
    with l12 have "?l1 + 1 \<le> ?l2" by simp
    then have "?h1 \<le> ?l2" by simp
    then have "s ! ?h1 \<le> s ! ?l2"
      using sorted_nth_mono[OF assms(1) _ l2_lt] by simp
    moreover have "interp s p1 \<le> s ! ?h1"
      using interp_bounds(2)[OF assms(1,2,3)] assms(4,5) by simp
    moreover have "s ! ?l2 \<le> interp s p2"
      using interp_bounds(1)[OF assms(1,2) _ assms(5)] assms(3,4) by simp
    ultimately show ?thesis by linarith
  qed
qed

lemma percentile_mono:
  assumes "a \<noteq> []" and "0 \<le> q1" and "q1 \<le> q2" and "q2 \<le> 100"
  shows "percentile a q1 \<le> percentile a q2"
proof -
  let ?n = "real (length a - 1)"
  have len: "length (sort a) = length a" by simp
  have ne: "sort a \<noteq> []" using assms(1) len by (metis length_0_conv)
  have s: "sorted (sort a)" "sort a \<noteq> []" "length (sort a) = length a"
    using ne by simp_all
  have p0: "0 \<le> q1 / 100 * ?n" using assms(2) by simp
  have p12: "q1 / 100 * ?n \<le> q2 / 100 * ?n"
    using assms(3) by (intro mult_right_mono) auto
  have "q2 / 100 * ?n \<le> 1 * ?n"
    using assms(4) by (intro mult_right_mono) auto
  then have p2: "q2 / 100 * ?n \<le> real (length (sort a) - 1)" by simp
  show ?thesis
    unfolding percentile_interp using interp_mono[OF s(1,2) p0 p12 p2] by simp
qed

lemma expm1_mono: "x \<le> y \<Longrightarrow> expm1 x \<le> expm1 y"
  by (simp add: expm1_def)

lemma np_std_nonneg: "0 \<le> np_std a"
proof -
  have "0 \<le> sum_list (map (\<lambda>v. (v - np_mean a)\<^sup>2) a)"
    by (intro sum_list_nonneg) auto
  then have "0 \<le> np_mean (map (\<lambda>v. (v - np_mean a)\<^sup>2) a)"
    by (simp add: np_mean_def)
  then show ?thesis by (simp add: np_std_def)
qed

lemma severity_weights_pos: "0 < dict_get severity_weights s 1.0"
  by (simp add: dict_get_def severity_weights_def)

lemma fitted_input:
  assumes "fitted p" and "0 < x"
  shows "\<exists>X. create_prediction_input hash (feature_engine p) ft (Finite x) i j w y = Inr X"
  using assms
  by (auto simp: fitted_def create_prediction_input_def transform_new_data_def
        prediction_frame_def engine_create_features_def
        scaler_transform_def feature_columns_def split: option.splits)

lemma infinite_input:
  assumes "fitted p"
  shows "isl (predict_settlement_range hash p ft PosInf i j w y)"
  using assms severity_weights_pos[of "lower ft"]
  by (auto simp: fitted_def predict_settlement_range_def create_prediction_input_def
        transform_new_data_def prediction_frame_def engine_create_features_def
        scaler_transform_def feature_columns_def split: option.splits)

lemma fitted_prediction:
  assumes "fitted p" and "0 < x"
  obtains X :: "real option list" and trees :: "tree list" where "trees \<noteq> []"
    and "predict_settlement_range hash p ft (Finite x) i j w y =
           Inr \<lparr>predicted_low = expm1 (percentile (map (\<lambda>tree. tree X) trees) 25),
                predicted_mid = expm1 (percentile (map (\<lambda>tree. tree X) trees) 50),
                predicted_high = expm1 (percentile (map (\<lambda>tree. tree X) trees) 75),
                confidence = 1 - min (np_std (map (\<lambda>tree. tree X) trees) / 2) 0.5,
                input_damages = Finite x\<rparr>"
proof -
  from fitted_input[OF assms, where hash=hash and ft=ft and i=i and j=j and w=w and y=y]
  obtain X where
    X: "create_prediction_input hash (feature_engine p) ft (Finite x) i j w y = Inr X" by auto
  from assms(1) obtain trees where t: "model p = Some trees" "trees \<noteq> []"
    by (auto simp: fitted_def split: option.splits)
  have eq: "predict_settlement_range hash p ft (Finite x) i j w y =
           Inr \<lparr>predicted_low = expm1 (percentile (map (\<lambda>tree. tree X) trees) 25),
                predicted_mid = expm1 (percentile (map (\<lambda>tree. tree X) trees) 50),
                predicted_high = expm1 (percentile (map (\<lambda>tree. tree X) trees) 75),
                confidence = 1 - min (np_std (map (\<lambda>tree. tree X) trees) / 2) 0.5,
                input_damages = Finite x\<rparr>"
    unfolding predict_settlement_range_def X sum.case t(1) option.case Let_def
    using t(2) by simp
  show thesis using that[OF t(2) eq] .
qed

lemma example_fitted: "fitted example_predictor"
  by (simp add: fitted_def example_predictor_def)

lemma example_valid: "request_valid example_request"
  by (simp add: example_request_def request_valid_def)

lemma infinite_valid: "request_valid (example_request\<lparr>damages_claimed := PosInf\<rparr>)"
  by (simp add: example_request_def request_valid_def)

text \<open>
  Claim C7. For every request that meets the schema and every fitted predictor,
  \<^verbatim>\<open>predict_settlement_range\<close> returns a result when the damages are finite, and in it
  \<open>predicted_low \<le> predicted_mid \<le> predicted_high\<close>: the three are the 25th, 50th and 75th
  percentiles of the same tree predictions, mapped through the monotone \<^verbatim>\<open>expm1\<close>. On
  infinite damages, which the schema lets through, the scaler raises and there is no
  result.
\<close>

theorem predicted_range_ordered:
  assumes "fitted p" and "request_valid req"
  shows "if damages_claimed req = PosInf
         then isl (predict_settlement_range hash p (fraud_type req) (damages_claimed req)
                 (industry req) (jurisdiction req) (whistleblower_present req)
                 (PredictionRequest.settlement_year req))
         else \<exists>res. predict_settlement_range hash p (fraud_type req) (damages_claimed req)
                 (industry req) (jurisdiction req) (whistleblower_present req)
                 (PredictionRequest.settlement_year req) = Inr res
           \<and> predicted_low res \<le> predicted_mid res \<and> predicted_mid res \<le> predicted_high res"
proof (cases "damages_claimed req = PosInf")
  case True
  then show ?thesis using infinite_input[OF assms(1)] by simp
next
  case False
  with valid_damages[OF assms(2)] obtain x where d: "0 < x" and dx: "damages_claimed req = Finite x"
    by auto
  obtain X :: "real option list" and trees :: "tree list" where t: "trees \<noteq> []" and
    r: "predict_settlement_range hash p (fraud_type req) (Finite x)
                 (industry req) (jurisdiction req) (whistleblower_present req)
                 (PredictionRequest.settlement_year req) =
           Inr \<lparr>predicted_low = expm1 (percentile (map (\<lambda>tree. tree X) trees) 25),
                predicted_mid = expm1 (percentile (map (\<lambda>tree. tree X) trees) 50),
                predicted_high = expm1 (percentile (map (\<lambda>tree. tree X) trees) 75),
                confidence = 1 - min (np_std (map (\<lambda>tree. tree X) trees) / 2) 0.5,
                input_damages = Finite x\<rparr>"
    by (rule fitted_prediction[OF assms(1) d])
  let ?tp = "map (\<lambda>tree. tree X) trees"
  have ne: "?tp \<noteq> []" using t by simp
  have "percentile ?tp 25 \<le> percentile ?tp 50" by (rule percentile_mono[OF ne]) simp_all
  moreover have "percentile ?tp 50 \<le> percentile ?tp 75" by (rule percentile_mono[OF ne]) simp_all
  ultimately show ?thesis unfolding dx r by (simp add: expm1_mono)
qed

theorem predicted_range_ordered_witness:
  "(\<exists>res. predict_settlement_range example_hash example_predictor ''healthcare'' (Finite 10000000)
            ''pharmaceutical'' ''Southern District of New York'' True 2024 = Inr res
      \<and> predicted_low res \<le> predicted_mid res \<and> predicted_mid res \<le> predicted_high res)
   \<and> isl (predict_settlement_range example_hash example_predictor ''healthcare'' PosInf
            ''pharmaceutical'' ''Southern District of New York'' True 2024)"
  using predicted_range_ordered[OF example_fitted example_valid, of example_hash]
    predicted_range_ordered[OF example_fitted infinite_valid, of example_hash]
  by (simp add: example_request_def)

text \<open>
  Claim C8. For every request that meets the schema and every fitted predictor, the
  confidence that \<^verbatim>\<open>predict_settlement_range\<close> returns lies between 0.5 and 1.0; it
  returns a result when the damages are finite and raises on infinite damages.
\<close>

theorem confidence_in_range:
  assumes "fitted p" and "request_valid req"
  shows "if damages_claimed req = PosInf
         then isl (predict_settlement_range hash p (fraud_type req) (damages_claimed req)
                 (industry req) (jurisdiction req) (whistleblower_present req)
                 (PredictionRequest.settlement_year req))
         else \<exists>res. predict_settlement_range hash p (fraud_type req) (damages_claimed req)
                 (industry req) (jurisdiction req) (whistleblower_present req)
                 (PredictionRequest.settlement_year req) = Inr res
           \<and> 0.5 \<le> confidence res \<and> confidence res \<le> 1.0"
proof (cases "damages_claimed req = PosInf")
  case True
  then show ?thesis using infinite_input[OF assms(1)] by simp
next
  case False
  with valid_damages[OF assms(2)] obtain x where d: "0 < x" and dx: "damages_claimed req = Finite x"
    by auto
  obtain X :: "real option list" and trees :: "tree list" where t: "trees \<noteq> []" and
    r: "predict_settlement_range hash p (fraud_type req) (Finite x)
                 (industry req) (jurisdiction req) (whistleblower_present req)
                 (PredictionRequest.settlement_year req) =
           Inr \<lparr>predicted_low = expm1 (percentile (map (\<lambda>tree. tree X) trees) 25),
                predicted_mid = expm1 (percentile (map (\<lambda>tree. tree X) trees) 50),
                predicted_high = expm1 (percentile (map (\<lambda>tree. tree X) trees) 75),
                confidence = 1 - min (np_std (map (\<lambda>tree. tree X) trees) / 2) 0.5,
                input_damages = Finite x\<rparr>"
    by (rule fitted_prediction[OF assms(1) d])
  have "0 \<le> np_std (map (\<lambda>tree. tree X) trees)" by (rule np_std_nonneg)
  then show ?thesis unfolding dx r by (simp add: min_def)
qed

theorem confidence_in_range_witness:
  "(\<exists>res. predict_settlement_range example_hash example_predictor ''healthcare'' (Finite 10000000)
            ''pharmaceutical'' ''Southern District of New York'' True 2024 = Inr res
      \<and> 0.5 \<le> confidence res \<and> confidence res \<le> 1.0)
   \<and> isl (predict_settlement_range example_hash example_predictor ''healthcare'' PosInf
            ''pharmaceutical'' ''Southern District of New York'' True 2024)"
  using confidence_in_range[OF example_fitted example_valid, of example_hash]
    confidence_in_range[OF example_fitted infinite_valid, of example_hash]
  by (simp add: example_request_def)

section \<open>The two jurisdiction encodings\<close>

text \<open>
  Claim C2. Whatever the string hash, there are a table and a jurisdiction in it whose
  code from \<^verbatim>\<open>encode_categories\<close> (its position among the sorted distinct values of the
  column) differs from the code \<^verbatim>\<open>create_prediction_input\<close> gives the same string (its
  hash modulo 50).
\<close>

theorem jurisdiction_encodings_differ:
  "\<exists>data r s. r \<in> set (encode_categories data) \<and> row.jurisdiction r = Some s
      \<and> row.jurisdiction_code r \<noteq> base_frame.jurisdiction_code (prediction_frame hash ft d i s w y l)"
proof (cases "hash ''SDNY'' mod 50 = 0")
  case True
  let ?data = "[raw_row ''Acme'' 20000 2020 (Some ''EDVA''), raw_row ''Acme'' 30000 2020 (Some ''SDNY'')]"
  let ?r = "last (encode_categories ?data)"
  have "?r \<in> set (encode_categories ?data)"
    by (simp add: raw_row_def cleaner_defs)
  moreover have "row.jurisdiction ?r = Some ''SDNY''" and "row.jurisdiction_code ?r = 1"
    by (simp_all add: raw_row_def cleaner_defs)
  moreover have "base_frame.jurisdiction_code (prediction_frame hash ft d i ''SDNY'' w y l) = 0"
    using True by (simp add: prediction_frame_def)
  ultimately show ?thesis by (intro exI[of _ ?data] exI[of _ ?r] exI[of _ "''SDNY''"]) simp
next
  case False
  let ?data = "[raw_row ''Acme'' 30000 2020 (Some ''SDNY'')]"
  let ?r = "last (encode_categories ?data)"
  have "?r \<in> set (encode_categories ?data)"
    by (simp add: raw_row_def cleaner_defs)
  moreover have "row.jurisdiction ?r = Some ''SDNY''" and "row.jurisdiction_code ?r = 0"
    by (simp_all add: raw_row_def cleaner_defs)
  moreover have "base_frame.jurisdiction_code (prediction_frame hash ft d i ''SDNY'' w y l) \<noteq> 0"
    using False by (simp add: prediction_frame_def)
  ultimately show ?thesis by (intro exI[of _ ?data] exI[of _ ?r] exI[of _ "''SDNY''"]) simp
qed



end
